theory Spec2Isabelle
  imports Complex_Main "HOL-Library.Word" "HOL-Library.Log_Nat"
begin

section \<open>Land-cover classification pipeline (scripts/classify.py)\<close>

text \<open>
  The development follows \<^verbatim>\<open>classify_image\<close> stage by stage. Everything outside the
  script (the raster library, the catalog, the signing service, the learning library)
  is a field of the record \<open>world\<close>; a call that may raise returns an option, with
  \<open>None\<close> for the exception. Fitting, scaling, predicting and writing the output
  file are taken to return. The band values and the spectral indices are idealised
  as reals, so rounding (and the cast to single precision of line 318) is not modelled
  there; a division whose denominator is zero is modelled as what the code does there
  (Python raises, numpy stores a non-finite value). The output size of lines 302-304
  is computed in double precision, with every division rounded as Python rounds it. The
  messages printed to the diagnostic stream are left out.
\<close>

subsection \<open>Data\<close>

datatype band = Red | Green | Blue | Nir | Swir16 | Swir22

text \<open>
  \<^verbatim>\<open>band_keys\<close> (lines 90-97), in insertion order: band name and the key of its asset.
\<close>

definition band_keys :: "(band \<times> string) list" where
  "band_keys = [(Red, ''red''), (Green, ''green''), (Blue, ''blue''), (Nir, ''nir''),
                (Swir16, ''swir16''), (Swir22, ''swir22'')]"

text \<open>
  A scene descriptor is read only through \<^verbatim>\<open>item.get('assets', {})\<close> and, for an asset,
  \<^verbatim>\<open>.get('href', '')\<close>: the model keeps the asset dictionary, an asset being its
  \<^verbatim>\<open>href\<close> when it has one.
\<close>

record stac_item =
  assets :: "string \<rightharpoonup> string option"

record point =
  lat :: real
  lon :: real
  label :: int
  class_name :: "string option"

record config =
  training_data :: "point list"
  stac_item_url :: string
  collection :: string
  output_path :: string
  num_trees :: int
  include_indices :: bool

text \<open>
  An opened raster source: what the script reads of \<^verbatim>\<open>src\<close>. \<open>r_to_crs\<close> is
  \<^verbatim>\<open>transform_coords('EPSG:4326', src.crs, [lon], [lat])\<close>, \<open>r_index\<close> is
  \<^verbatim>\<open>src.index(x, y)\<close> giving (row, col), \<open>r_read_pixel col row\<close> is the 1x1 window
  read of line 165, \<open>r_from_bounds\<close> is \<^verbatim>\<open>from_bounds(..., src.transform)\<close> giving
  (col_off, row_off, width, height), and \<open>r_read_window\<close> is the resampled read of
  line 311: for a window and an output shape (height, width) it gives the value at each
  (row, column) of the array read.
\<close>

record raster =
  r_left :: real
  r_bottom :: real
  r_right :: real
  r_top :: real
  r_width :: int
  r_height :: int
  r_to_crs :: "real \<Rightarrow> real \<Rightarrow> (real \<times> real) option"
  r_index :: "real \<Rightarrow> real \<Rightarrow> int \<times> int"
  r_read_pixel :: "int \<Rightarrow> int \<Rightarrow> real option"
  r_from_bounds :: "real \<Rightarrow> real \<Rightarrow> real \<Rightarrow> real \<Rightarrow> (real \<times> real \<times> real \<times> real) option"
  r_read_window :: "int \<times> int \<times> int \<times> int \<Rightarrow> nat \<times> nat \<Rightarrow> (nat \<Rightarrow> nat \<Rightarrow> real) option"

text \<open>
  A feature cell of the bulk path is a numpy float, which may be infinite or not a
  number. A fitted scaler and a fitted forest are represented by what they compute on a
  feature row.
\<close>

datatype cell = Fin real | PosInf | NegInf | NaN

record world =
  fetch_item :: "string \<Rightarrow> stac_item option"
  sign :: "string \<Rightarrow> string option"
  open_raster :: "string \<Rightarrow> raster option"
  stac_search :: "string \<Rightarrow> real list \<Rightarrow> stac_item list option"
  scaler_fit :: "real list list \<Rightarrow> cell list \<Rightarrow> cell list"
  forest_fit :: "int \<Rightarrow> cell list list \<Rightarrow> int list \<Rightarrow> cell list \<Rightarrow> int"

text \<open>
  The exceptions that leave \<^verbatim>\<open>classify_image\<close>. The two \<^verbatim>\<open>ValueError\<close>s the script
  raises itself are kept apart by what their messages carry: the resolved band names
  (line 114), and the numbers of valid samples and of classes (line 227).
\<close>

datatype error =
    FetchError
  | NotEnoughBands "band list"
  | NotEnoughSamples nat nat
  | KeyError string
  | ZeroDivisionError
  | RasterError
  | ShapeError
  | EmptySequence

text \<open>The calls to the outside that the claims speak of, in the order they happen.\<close>

datatype event =
    EvSample "(band \<times> string) list" real real
  | EvSearch real real
  | EvFit
  | EvWrite string

subsection \<open>Band resolver\<close>

fun starts_with :: "string \<Rightarrow> string \<Rightarrow> bool" where
  "starts_with [] s = True"
| "starts_with (c # cs) [] = False"
| "starts_with (c # cs) (d # ds) = (c = d \<and> starts_with cs ds)"

text \<open>Python's \<^verbatim>\<open>sub in s\<close> on strings.\<close>

fun str_in :: "string \<Rightarrow> string \<Rightarrow> bool" where
  "str_in sub [] = starts_with sub []"
| "str_in sub (d # ds) = (starts_with sub (d # ds) \<or> str_in sub ds)"

text \<open>Lines 102-111 and 139-146: the URL of one asset, signed when it can be.\<close>

definition resolve_url :: "world \<Rightarrow> string option \<Rightarrow> string" where
  "resolve_url w asset =
     (let url = (case asset of None \<Rightarrow> [] | Some h \<Rightarrow> h)
      in if str_in ''blob.core.windows.net'' url
         then (case sign w url of Some signed_url \<Rightarrow> signed_url | None \<Rightarrow> url)
         else url)"

text \<open>
  \<^verbatim>\<open>get_band_urls_for_item\<close> (lines 133-147). The loop over \<^verbatim>\<open>band_keys\<close> adds each
  band at most once, so the dictionary it builds is an association list in the order of
  \<^verbatim>\<open>band_keys\<close>. Lines 99-111 run the same loop on the primary scene.
\<close>

fun urls_loop :: "world \<Rightarrow> (string \<rightharpoonup> string option) \<Rightarrow> (band \<times> string) list \<Rightarrow> (band \<times> string) list" where
  "urls_loop w item_assets [] = []"
| "urls_loop w item_assets ((bname, asset_key) # rest) =
     (case item_assets asset_key of
        Some asset \<Rightarrow> (bname, resolve_url w asset) # urls_loop w item_assets rest
      | None \<Rightarrow> urls_loop w item_assets rest)"

definition get_band_urls_for_item :: "world \<Rightarrow> stac_item \<Rightarrow> (band \<times> string) list" where
  "get_band_urls_for_item w item = urls_loop w (assets item) band_keys"

subsection \<open>Scene search\<close>

text \<open>
  \<^verbatim>\<open>search_stac_for_point\<close> (lines 18-54), called without a date range: the request
  and the decoding are \<open>stac_search\<close>, an exception there is caught and gives
  \<^verbatim>\<open>None\<close>, and only the first feature is used.
\<close>

definition search_stac_for_point :: "world \<Rightarrow> string \<Rightarrow> real \<Rightarrow> real \<Rightarrow> stac_item option" where
  "search_stac_for_point w coll lo la =
     (let delta = 1 / 100;
          bbox = [lo - delta, la - delta, lo + delta, la + delta]
      in case stac_search w coll bbox of
           None \<Rightarrow> None
         | Some features \<Rightarrow> (case features of [] \<Rightarrow> None | f # _ \<Rightarrow> Some f))"

subsection \<open>Point sampler\<close>

text \<open>Lines 153-168 for one band: every exception is caught and the band is skipped.\<close>

definition sample_band :: "world \<Rightarrow> string \<Rightarrow> real \<Rightarrow> real \<Rightarrow> real option" where
  "sample_band w url lo la =
     (case open_raster w url of
        None \<Rightarrow> None
      | Some src \<Rightarrow>
          (case r_to_crs src lo la of
             None \<Rightarrow> None
           | Some (x, y) \<Rightarrow>
               if \<not> (r_left src \<le> x \<and> x \<le> r_right src \<and> r_bottom src \<le> y \<and> y \<le> r_top src)
               then None
               else (case r_index src x y of
                       (row, col) \<Rightarrow>
                         if 0 \<le> row \<and> row < r_height src \<and> 0 \<le> col \<and> col < r_width src
                         then r_read_pixel src col row
                         else None)))"

text \<open>\<^verbatim>\<open>sample_point_from_urls\<close> (lines 149-169).\<close>

fun sample_point_from_urls :: "world \<Rightarrow> (band \<times> string) list \<Rightarrow> real \<Rightarrow> real \<Rightarrow> (band \<times> real) list" where
  "sample_point_from_urls w [] lo la = []"
| "sample_point_from_urls w ((bname, url) # rest) lo la =
     (case sample_band w url lo la of
        Some v \<Rightarrow> (bname, v) # sample_point_from_urls w rest lo la
      | None \<Rightarrow> sample_point_from_urls w rest lo la)"

subsection \<open>Feature builder, point case\<close>

text \<open>\<^verbatim>\<open>band_values.get(b, 0)\<close>.\<close>

definition band_get :: "(band \<times> real) list \<Rightarrow> band \<Rightarrow> real" where
  "band_get band_values b = (case map_of band_values b of Some v \<Rightarrow> v | None \<Rightarrow> 0)"

text \<open>Python's \<^verbatim>\<open>/\<close> on floats raises \<^verbatim>\<open>ZeroDivisionError\<close> on a zero divisor.\<close>

definition py_truediv :: "real \<Rightarrow> real \<Rightarrow> error + real" where
  "py_truediv a b = (if b = 0 then Inl ZeroDivisionError else Inr (a / b))"

definition eps :: real where
  "eps = 1 / 10 ^ 10"

text \<open>The four expressions of lines 208-211.\<close>

definition ndvi :: "real \<Rightarrow> real \<Rightarrow> error + real" where
  "ndvi n r = py_truediv (n - r) (n + r + eps)"

definition ndwi :: "real \<Rightarrow> real \<Rightarrow> error + real" where
  "ndwi g n = py_truediv (g - n) (g + n + eps)"

definition ndbi :: "real \<Rightarrow> real \<Rightarrow> error + real" where
  "ndbi s n = py_truediv (s - n) (s + n + eps)"

definition evi :: "real \<Rightarrow> real \<Rightarrow> real \<Rightarrow> error + real" where
  "evi n r b = py_truediv (5 / 2 * (n - r)) (n + 6 * r - 15 / 2 * b + 10000)"

text \<open>Lines 191-213: the feature vector of one sampled point.\<close>

definition build_features :: "bool \<Rightarrow> (band \<times> real) list \<Rightarrow> error + real list" where
  "build_features inc band_values =
     (let features = [band_get band_values Red, band_get band_values Green,
                      band_get band_values Blue, band_get band_values Nir,
                      band_get band_values Swir16, band_get band_values Swir22]
      in if inc
         then (let n = band_get band_values Nir;
                   r = band_get band_values Red;
                   g = band_get band_values Green;
                   b = band_get band_values Blue;
                   s = band_get band_values Swir16
               in case ndvi n r of Inl e \<Rightarrow> Inl e | Inr v1 \<Rightarrow>
                  (case ndwi g n of Inl e \<Rightarrow> Inl e | Inr v2 \<Rightarrow>
                  (case ndbi s n of Inl e \<Rightarrow> Inl e | Inr v3 \<Rightarrow>
                  (case evi n r b of Inl e \<Rightarrow> Inl e | Inr v4 \<Rightarrow>
                     Inr (features @ [v1, v2, v3, v4])))))
         else Inr features)"

subsection \<open>Sampling the training points\<close>

text \<open>
  What the loop of lines 171-224 accumulates. \<open>sampled_classes\<close> is the set of line
  123, kept as a list without duplicates; \<open>trace\<close> records the calls made so far.
\<close>

record acc =
  feature_matrix :: "real list list"
  labels :: "int list"
  sampled_classes :: "int list"
  trace :: "event list"

text \<open>
  Lines 178-187: the band values of a point, from the primary scene or, on a shortfall,
  from the scene the catalog returns, together with the calls made. A scene that is
  found replaces the values only when at least 4 of its bands resolve (an empty
  descriptor, which line 184 skips, resolves none).
\<close>

definition sample_values ::
  "world \<Rightarrow> string \<Rightarrow> (band \<times> string) list \<Rightarrow> point \<Rightarrow> (band \<times> real) list \<times> event list" where
  "sample_values w coll band_urls p =
     (let band_values = sample_point_from_urls w band_urls (lon p) (lat p);
          ev1 = [EvSample band_urls (lon p) (lat p)]
      in if length band_values < 4
         then (case search_stac_for_point w coll (lon p) (lat p) of
                 Some item \<Rightarrow>
                   (let alt_band_urls = get_band_urls_for_item w item
                    in if length alt_band_urls \<ge> 4
                       then (sample_point_from_urls w alt_band_urls (lon p) (lat p),
                             ev1 @ [EvSearch (lon p) (lat p),
                                    EvSample alt_band_urls (lon p) (lat p)])
                       else (band_values, ev1 @ [EvSearch (lon p) (lat p)]))
               | None \<Rightarrow> (band_values, ev1 @ [EvSearch (lon p) (lat p)]))
         else (band_values, ev1))"

text \<open>
  One iteration of the loop (lines 171-224). An exception while the features are built
  is caught at line 222 and the loop goes on: nothing has been appended yet.
\<close>

definition sample_training_point ::
  "world \<Rightarrow> config \<Rightarrow> (band \<times> string) list \<Rightarrow> acc \<Rightarrow> point \<Rightarrow> acc" where
  "sample_training_point w cfg band_urls a p =
     (case sample_values w (collection cfg) band_urls p of
        (band_values, evs) \<Rightarrow>
          (let a' = a\<lparr>trace := trace a @ evs\<rparr>
           in if length band_values \<ge> 4
              then (case build_features (include_indices cfg) band_values of
                      Inl e \<Rightarrow> a'
                    | Inr features \<Rightarrow>
                        a'\<lparr>feature_matrix := feature_matrix a' @ [features],
                           labels := labels a' @ [label p],
                           sampled_classes := List.insert (label p) (sampled_classes a')\<rparr>)
              else a'))"

fun sample_training_points ::
  "world \<Rightarrow> config \<Rightarrow> (band \<times> string) list \<Rightarrow> acc \<Rightarrow> point list \<Rightarrow> acc" where
  "sample_training_points w cfg band_urls a [] = a"
| "sample_training_points w cfg band_urls a (p # ps) =
     sample_training_points w cfg band_urls (sample_training_point w cfg band_urls a p) ps"

subsection \<open>Reading the window\<close>

text \<open>Python's \<^verbatim>\<open>int\<close> on a float truncates towards zero.\<close>

definition py_int :: "real \<Rightarrow> int" where
  "py_int x = (if 0 \<le> x then \<lfloor>x\<rfloor> else \<lceil>x\<rceil>)"

text \<open>\<^verbatim>\<open>min\<close> and \<^verbatim>\<open>max\<close> of a list raise on an empty one.\<close>

fun py_min :: "real list \<Rightarrow> error + real" where
  "py_min [] = Inl EmptySequence"
| "py_min (x # xs) = Inr (fold min xs x)"

fun py_max :: "real list \<Rightarrow> error + real" where
  "py_max [] = Inl EmptySequence"
| "py_max (x # xs) = Inr (fold max xs x)"

text \<open>
  Lines 259-274: the bounds (left, bottom, right, top) of the window, in the coordinate
  system of the raster opened at line 126 and clipped to its bounds.
\<close>

definition window_bounds :: "raster \<Rightarrow> point list \<Rightarrow> error + real \<times> real \<times> real \<times> real" where
  "window_bounds src pts =
     (let lats = map lat pts; lons = map lon pts
      in case py_min lats of Inl e \<Rightarrow> Inl e | Inr lat0 \<Rightarrow>
        (case py_max lats of Inl e \<Rightarrow> Inl e | Inr lat1 \<Rightarrow>
        (case py_min lons of Inl e \<Rightarrow> Inl e | Inr lon0 \<Rightarrow>
        (case py_max lons of Inl e \<Rightarrow> Inl e | Inr lon1 \<Rightarrow>
           (let min_lat = lat0 - 1 / 2; max_lat = lat1 + 1 / 2;
                min_lon = lon0 - 1 / 2; max_lon = lon1 + 1 / 2
            in case r_to_crs src min_lon min_lat of None \<Rightarrow> Inl RasterError | Some (x0, y0) \<Rightarrow>
              (case r_to_crs src max_lon max_lat of None \<Rightarrow> Inl RasterError | Some (x1, y1) \<Rightarrow>
                 Inr (max (r_left src) (min x0 x1), max (r_bottom src) (min y0 y1),
                      min (r_right src) (max x0 x1), min (r_top src) (max y0 y1))))))))"

text \<open>A two-dimensional numpy array: its shape (rows, columns) and its cells, row by row.\<close>

record ndarray =
  arr_shape :: "nat \<times> nat"
  arr_flat :: "real list"

text \<open>
  Double precision. \<open>fl x\<close> is the double nearest to \<open>x\<close>, ties going to the even
  significand of 53 bits; the exponent range is taken as unbounded (no overflow, no
  subnormal numbers). \<open>binade x\<close> is the exponent \<open>e\<close> with
  \<open>2 powi e \<le> x < 2 powi (e + 1)\<close> for a positive \<open>x\<close>.
\<close>

definition round_even :: "real \<Rightarrow> int" where
  "round_even x =
     (let f = \<lfloor>x\<rfloor>; d = x - of_int f
      in if d < 1 / 2 then f else if 1 / 2 < d then f + 1 else if even f then f else f + 1)"

definition binade :: "real \<Rightarrow> int" where
  "binade x = (if 1 \<le> x then bitlen \<lfloor>x\<rfloor> - 1 else - bitlen (\<lceil>1 / x\<rceil> - 1))"

definition fl :: "real \<Rightarrow> real" where
  "fl x = (if x = 0 then 0
           else (let q = 2 powi (binade \<bar>x\<bar> - 52) in of_int (round_even (x / q)) * q))"

text \<open>
  Python's \<^verbatim>\<open>/\<close>: on two integers the exact quotient is rounded once; with a float
  divisor the integer is converted first and the quotient of the two doubles is
  rounded. The divisors of lines 302-304 are never zero.
\<close>

definition int_truediv :: "int \<Rightarrow> int \<Rightarrow> real" where
  "int_truediv a b = fl (real_of_int a / real_of_int b)"

definition int_over_float :: "int \<Rightarrow> real \<Rightarrow> real" where
  "int_over_float a s = fl (fl (real_of_int a) / s)"

definition MAX_DIM :: int where
  "MAX_DIM = 1000"

text \<open>
  Lines 301-304: the output size (out_width, out_height) for a clamped window, whose
  width and height are integers. \<^verbatim>\<open>max(w / MAX_DIM, h / MAX_DIM, 1)\<close> is the integer 1
  when both quotients are below 1 and the larger quotient otherwise.
\<close>

definition out_size :: "int \<times> int \<times> int \<times> int \<Rightarrow> int \<times> int" where
  "out_size window =
     (case window of (col_off, row_off, wd, ht) \<Rightarrow>
        (let m = max (int_truediv wd MAX_DIM) (int_truediv ht MAX_DIM)
         in if m < 1 then (py_int (int_truediv wd 1), py_int (int_truediv ht 1))
            else (py_int (int_over_float wd m), py_int (int_over_float ht m))))"

text \<open>
  Lines 290-298: the window of a band in pixel coordinates (col_off, row_off, width,
  height), clamped to the raster.
\<close>

definition clamped_window ::
  "raster \<Rightarrow> real \<times> real \<times> real \<times> real \<Rightarrow> error + int \<times> int \<times> int \<times> int" where
  "clamped_window src bnds =
     (case bnds of (window_left, window_bottom, window_right, window_top) \<Rightarrow>
        (case r_from_bounds src window_left window_bottom window_right window_top of
           None \<Rightarrow> Inl RasterError
         | Some (col_off, row_off, wd, ht) \<Rightarrow>
             Inr (max 0 (py_int col_off), max 0 (py_int row_off),
                  min (py_int wd) (r_width src - py_int col_off),
                  min (py_int ht) (r_height src - py_int row_off))))"

text \<open>The array of shape (h, w) whose cell in row \<open>i\<close> and column \<open>j\<close> is \<open>px i j\<close>.\<close>

definition read_array :: "(nat \<Rightarrow> nat \<Rightarrow> real) \<Rightarrow> nat \<Rightarrow> nat \<Rightarrow> ndarray" where
  "read_array px h w =
     \<lparr>arr_shape = (h, w), arr_flat = concat (map (\<lambda>i. map (px i) [0..<w]) [0..<h])\<rparr>"

text \<open>
  Lines 290-318 for one opened band. \<open>out\<close> is \<^verbatim>\<open>(out_width, out_height)\<close>, or
  \<open>None\<close> while they are \<^verbatim>\<open>None\<close>. When the size is computed, the output
  transform of line 305 divides the extent of the window by it and raises on a zero
  width or height. An array has no negative dimension: the read raises there.
\<close>

definition read_band ::
  "raster \<Rightarrow> real \<times> real \<times> real \<times> real \<Rightarrow> (int \<times> int) option \<Rightarrow> error + ndarray \<times> int \<times> int" where
  "read_band src bnds out =
     (case clamped_window src bnds of
        Inl e \<Rightarrow> Inl e
      | Inr window \<Rightarrow>
          (let out' = (case out of None \<Rightarrow> out_size window | Some sz \<Rightarrow> sz)
           in case out' of (out_width, out_height) \<Rightarrow>
                if out = None \<and> (out_width = 0 \<or> out_height = 0) then Inl ZeroDivisionError
                else if out_height < 0 \<or> out_width < 0 then Inl RasterError
                else (case r_read_window src window (nat out_height, nat out_width) of
                        None \<Rightarrow> Inl RasterError
                      | Some px \<Rightarrow> Inr (read_array px (nat out_height) (nat out_width), out'))))"

text \<open>The loop of lines 286-318 over \<^verbatim>\<open>band_urls.items()\<close>.\<close>

fun read_bands ::
  "world \<Rightarrow> real \<times> real \<times> real \<times> real \<Rightarrow> (int \<times> int) option \<Rightarrow> (band \<times> string) list
     \<Rightarrow> error + (band \<times> ndarray) list \<times> (int \<times> int) option" where
  "read_bands w bnds out [] = Inr ([], out)"
| "read_bands w bnds out ((bname, url) # rest) =
     (case open_raster w url of
        None \<Rightarrow> Inl RasterError
      | Some src \<Rightarrow>
          (case read_band src bnds out of
             Inl e \<Rightarrow> Inl e
           | Inr (data, out') \<Rightarrow>
               (case read_bands w bnds (Some out') rest of
                  Inl e \<Rightarrow> Inl e
                | Inr (band_data, out'') \<Rightarrow> Inr ((bname, data) # band_data, out''))))"

subsection \<open>Feature builder, bulk case\<close>

text \<open>numpy's \<^verbatim>\<open>/\<close> on float arrays does not raise: a zero divisor gives inf or nan.\<close>

definition np_divide :: "real \<Rightarrow> real \<Rightarrow> cell" where
  "np_divide a b =
     (if b = 0 then (if 0 < a then PosInf else if a < 0 then NegInf else NaN)
      else Fin (a / b))"

text \<open>The four expressions of lines 343-346, for one pixel.\<close>

definition np_ndvi :: "real \<Rightarrow> real \<Rightarrow> cell" where
  "np_ndvi n r = np_divide (n - r) (n + r + eps)"

definition np_ndwi :: "real \<Rightarrow> real \<Rightarrow> cell" where
  "np_ndwi g n = np_divide (g - n) (g + n + eps)"

definition np_ndbi :: "real \<Rightarrow> real \<Rightarrow> cell" where
  "np_ndbi s n = np_divide (s - n) (s + n + eps)"

definition np_evi :: "real \<Rightarrow> real \<Rightarrow> real \<Rightarrow> cell" where
  "np_evi n r b = np_divide (5 / 2 * (n - r)) (n + 6 * r - 15 / 2 * b + 10000)"

text \<open>One row of \<^verbatim>\<open>pixels\<close> (lines 324-346), from the six band values of the pixel.\<close>

definition pixel_row :: "bool \<Rightarrow> real \<Rightarrow> real \<Rightarrow> real \<Rightarrow> real \<Rightarrow> real \<Rightarrow> real \<Rightarrow> cell list" where
  "pixel_row inc r g b n s s22 =
     map Fin [r, g, b, n, s, s22] @
     (if inc then [np_ndvi n r, np_ndwi g n, np_ndbi s n, np_evi n r b] else [])"

text \<open>
  \<^verbatim>\<open>band_data.get(b, np.zeros((height, width))).flatten()\<close>, the column assigned at
  lines 328-333.
\<close>

definition band_column :: "(band \<times> ndarray) list \<Rightarrow> nat \<Rightarrow> band \<Rightarrow> real list" where
  "band_column band_data n b =
     (case map_of band_data b of Some d \<Rightarrow> arr_flat d | None \<Rightarrow> replicate n 0)"

text \<open>
  Lines 320-346: the shape of the nir array and the feature rows of its pixels. A column
  whose length is not the number of pixels cannot be assigned.
\<close>

definition stack_pixels :: "bool \<Rightarrow> (band \<times> ndarray) list \<Rightarrow> error + nat \<times> nat \<times> cell list list" where
  "stack_pixels inc band_data =
     (case map_of band_data Nir of
        None \<Rightarrow> Inl (KeyError ''nir'')
      | Some a \<Rightarrow>
          (case arr_shape a of (height, width) \<Rightarrow>
             (let n = height * width; col = band_column band_data n
              in if \<exists>b \<in> set (map fst band_keys). length (col b) \<noteq> n then Inl ShapeError
                 else Inr (height, width,
                           map (\<lambda>i. pixel_row inc (col Red ! i) (col Green ! i) (col Blue ! i)
                                        (col Nir ! i) (col Swir16 ! i) (col Swir22 ! i))
                               [0..<n]))))"

subsection \<open>Classification of the pixels\<close>

text \<open>\<^verbatim>\<open>x > 0\<close> on a numpy float.\<close>

fun cell_pos :: "cell \<Rightarrow> bool" where
  "cell_pos (Fin v) = (0 < v)"
| "cell_pos PosInf = True"
| "cell_pos NegInf = False"
| "cell_pos NaN = False"

text \<open>\<^verbatim>\<open>arr[mask]\<close> and \<^verbatim>\<open>arr[mask] = vals\<close> with a boolean mask.\<close>

definition mask_select :: "bool list \<Rightarrow> 'a list \<Rightarrow> 'a list" where
  "mask_select ms arr = map snd (filter fst (zip ms arr))"

fun mask_assign :: "bool list \<Rightarrow> 'a list \<Rightarrow> 'a list \<Rightarrow> 'a list" where
  "mask_assign (True # ms) (a # arr) (v # vs) = v # mask_assign ms arr vs"
| "mask_assign (False # ms) (a # arr) vs = a # mask_assign ms arr vs"
| "mask_assign ms arr vs = arr"

text \<open>
  Lines 349-363, flat: the labels are stored in an array of unsigned bytes, so the cast
  of a predicted label keeps its low 8 bits.
\<close>

definition classify_pixels ::
  "(cell list \<Rightarrow> cell list) \<Rightarrow> (cell list \<Rightarrow> int) \<Rightarrow> cell list list \<Rightarrow> 8 word list" where
  "classify_pixels scaler clf pixels =
     (let valid_mask = map (\<lambda>row. cell_pos (row ! 3)) pixels;
          pixels_scaled = map scaler pixels;
          classification = replicate (length pixels) (0 :: 8 word)
      in if \<exists>m \<in> set valid_mask. m
         then mask_assign valid_mask classification
                (map (\<lambda>row. word_of_int (clf row)) (mask_select valid_mask pixels_scaled))
         else classification)"

subsection \<open>The pipeline\<close>

text \<open>
  What a successful run produces: the fields of the returned dictionary that are numbers
  (lines 413-425; the class names and the coordinate system are left out), and
  \<open>res_raster\<close>, the array written to \<^verbatim>\<open>output_path\<close> at line 381.
\<close>

record result =
  res_output_path :: string
  res_width :: nat
  res_height :: nat
  res_training_accuracy :: real
  res_training_samples :: nat
  res_classes_in_output :: "int list"
  res_classes_sampled :: "int list"
  res_bounds :: "real list"
  res_raster :: "8 word list"

text \<open>
  \<^verbatim>\<open>clf.score(X_scaled, y)\<close>: the fraction of the rows whose prediction is their label.
\<close>

definition score :: "(cell list \<Rightarrow> int) \<Rightarrow> cell list list \<Rightarrow> int list \<Rightarrow> real" where
  "score clf X y = real (length (filter (\<lambda>(row, l). clf row = l) (zip X y))) / real (length y)"

text \<open>
  Lines 259-318: the bounds of the window, the arrays read for the bands and the output
  size (out_width, out_height) they share.
\<close>

definition read_window_data ::
  "world \<Rightarrow> config \<Rightarrow> (band \<times> string) list \<Rightarrow> raster
     \<Rightarrow> error + (real \<times> real \<times> real \<times> real) \<times> (band \<times> ndarray) list \<times> (int \<times> int) option" where
  "read_window_data w cfg band_urls src =
     (case window_bounds src (training_data cfg) of
        Inl e \<Rightarrow> Inl e
      | Inr bnds \<Rightarrow>
          (case read_bands w bnds None band_urls of
             Inl e \<Rightarrow> Inl e
           | Inr (band_data, out) \<Rightarrow> Inr (bnds, band_data, out)))"

text \<open>
  Lines 254-363: from the fitted scaler and forest to the shape of the output, its
  labels and the bounds of the window.
\<close>

definition apply_classification ::
  "world \<Rightarrow> config \<Rightarrow> (band \<times> string) list \<Rightarrow> raster \<Rightarrow> (cell list \<Rightarrow> cell list) \<Rightarrow> (cell list \<Rightarrow> int)
     \<Rightarrow> error + nat \<times> nat \<times> 8 word list \<times> real list" where
  "apply_classification w cfg band_urls src scaler clf =
     (case read_window_data w cfg band_urls src of
        Inl e \<Rightarrow> Inl e
      | Inr ((window_left, window_bottom, window_right, window_top), band_data, out) \<Rightarrow>
          (case stack_pixels (include_indices cfg) band_data of
             Inl e \<Rightarrow> Inl e
           | Inr (height, width, pixels) \<Rightarrow>
               Inr (height, width, classify_pixels scaler clf pixels,
                    [window_left, window_bottom, window_right, window_top])))"

text \<open>
  Lines 83-131: the band URLs of the primary scene and the raster of its nir band, whose
  coordinate system and bounds the rest of the run uses.
\<close>

definition resolve_primary :: "world \<Rightarrow> config \<Rightarrow> error + (band \<times> string) list \<times> raster" where
  "resolve_primary w cfg =
     (case fetch_item w (stac_item_url cfg) of
        None \<Rightarrow> Inl FetchError
      | Some item \<Rightarrow>
          (let band_urls = get_band_urls_for_item w item
           in if length band_urls < 4 then Inl (NotEnoughBands (map fst band_urls))
              else (case map_of band_urls Nir of
                      None \<Rightarrow> Inl (KeyError ''nir'')
                    | Some nir_url \<Rightarrow>
                        (case open_raster w nir_url of
                           None \<Rightarrow> Inl RasterError
                         | Some src \<Rightarrow> Inr (band_urls, src)))))"

text \<open>Lines 121-224: the training set sampled from the points of the configuration.\<close>

definition training_set :: "world \<Rightarrow> config \<Rightarrow> (band \<times> string) list \<Rightarrow> acc" where
  "training_set w cfg band_urls =
     sample_training_points w cfg band_urls
       \<lparr>feature_matrix = [], labels = [], sampled_classes = [], trace = []\<rparr> (training_data cfg)"

text \<open>Lines 234-248: the scaler and the forest fitted on a training set.\<close>

definition fitted_scaler :: "world \<Rightarrow> acc \<Rightarrow> cell list \<Rightarrow> cell list" where
  "fitted_scaler w a = scaler_fit w (feature_matrix a)"

definition fitted_forest :: "world \<Rightarrow> config \<Rightarrow> acc \<Rightarrow> cell list \<Rightarrow> int" where
  "fitted_forest w cfg a =
     forest_fit w (num_trees cfg)
       (map (\<lambda>row. fitted_scaler w a (map Fin row)) (feature_matrix a)) (labels a)"

text \<open>
  \<^verbatim>\<open>classify_image\<close>: the result or the exception that leaves it, and the calls made.
\<close>

definition classify_image :: "world \<Rightarrow> config \<Rightarrow> (error + result) \<times> event list" where
  "classify_image w cfg =
     (case resolve_primary w cfg of
        Inl e \<Rightarrow> (Inl e, [])
      | Inr (band_urls, src) \<Rightarrow>
          (let a = training_set w cfg band_urls
           in if length (feature_matrix a) < 3
              then (Inl (NotEnoughSamples (length (feature_matrix a)) (length (sampled_classes a))),
                    trace a)
              else (let X = feature_matrix a; y = labels a;
                        scaler = fitted_scaler w a;
                        X_scaled = map (\<lambda>row. scaler (map Fin row)) X;
                        clf = fitted_forest w cfg a;
                        train_accuracy = score clf X_scaled y;
                        tr = trace a @ [EvFit]
                    in case apply_classification w cfg band_urls src scaler clf of
                         Inl e \<Rightarrow> (Inl e, tr)
                       | Inr (height, width, classification, bnds) \<Rightarrow>
                           (Inr \<lparr>res_output_path = output_path cfg,
                                 res_width = width,
                                 res_height = height,
                                 res_training_accuracy = train_accuracy,
                                 res_training_samples = length X,
                                 res_classes_in_output =
                                   map uint (sort (remdups (filter (\<lambda>c. 0 < c) classification))),
                                 res_classes_sampled = sort (sampled_classes a),
                                 res_bounds = bnds,
                                 res_raster = classification\<rparr>,
                            tr @ [EvWrite (output_path cfg)]))))"

subsection \<open>Example runs\<close>

text \<open>
  A small world on which the pipeline can be run: every URL opens the same 2x2 raster,
  whose upper row holds 100 and whose lower row holds 0; the scene has the assets named
  in \<open>keys\<close>; the catalog finds nothing; the scaler is the identity and the forest
  predicts the label of the first training row.
\<close>

definition example_raster :: raster where
  "example_raster =
     \<lparr>r_left = 0, r_bottom = 0, r_right = 10, r_top = 10, r_width = 2, r_height = 2,
      r_to_crs = (\<lambda>lo la. Some (lo, la)),
      r_index = (\<lambda>x y. (0, 0)),
      r_read_pixel = (\<lambda>col row. Some 100),
      r_from_bounds = (\<lambda>l b r t. Some (0, 0, 2, 2)),
      r_read_window = (\<lambda>win shp. Some (\<lambda>i j. if i = 0 then 100 else 0))\<rparr>"

definition example_item :: "string list \<Rightarrow> stac_item" where
  "example_item keys = \<lparr>assets = map_of (map (\<lambda>k. (k, Some k)) keys)\<rparr>"

definition example_world :: "string list \<Rightarrow> world" where
  "example_world keys =
     \<lparr>fetch_item = (\<lambda>u. Some (example_item keys)),
      sign = (\<lambda>u. None),
      open_raster = (\<lambda>u. Some example_raster),
      stac_search = (\<lambda>c bbox. Some []),
      scaler_fit = (\<lambda>X row. row),
      forest_fit = (\<lambda>n X y row. case y of [] \<Rightarrow> 0 | l # _ \<Rightarrow> l)\<rparr>"

definition example_point :: "int \<Rightarrow> point" where
  "example_point l = \<lparr>lat = 1, lon = 1, label = l, class_name = None\<rparr>"

definition example_config :: "int list \<Rightarrow> config" where
  "example_config ls =
     \<lparr>training_data = map example_point ls, stac_item_url = ''item'',
      collection = ''sentinel-2-l2a'', output_path = ''out.tif'', num_trees = 50,
      include_indices = True\<rparr>"

definition all_keys :: "string list" where
  "all_keys = [''red'', ''green'', ''blue'', ''nir'', ''swir16'', ''swir22'']"

text \<open>The band URLs of the example scene when it has all six assets.\<close>

definition example_urls :: "(band \<times> string) list" where
  "example_urls = [(Red, ''red''), (Green, ''green''), (Blue, ''blue''), (Nir, ''nir''),
                   (Swir16, ''swir16''), (Swir22, ''swir22'')]"

text \<open>
  A second world, for the fallback: at the example point the primary scene covers only
  its red, green and blue rasters, and the scene the catalog returns resolves four bands
  of which the red one does not cover the point.
\<close>

definition far_raster :: raster where
  "far_raster = example_raster\<lparr>r_left := 20, r_right := 30\<rparr>"

definition alt_item :: stac_item where
  "alt_item =
     \<lparr>assets = map_of [(''red'', Some ''alt_red''), (''nir'', Some ''alt_nir''),
                        (''swir16'', Some ''alt_swir16''), (''swir22'', Some ''alt_swir22'')]\<rparr>"

definition alt_urls :: "(band \<times> string) list" where
  "alt_urls = [(Red, ''alt_red''), (Nir, ''alt_nir''), (Swir16, ''alt_swir16''),
               (Swir22, ''alt_swir22'')]"

definition split_world :: world where
  "split_world =
     \<lparr>fetch_item = (\<lambda>u. Some (example_item all_keys)),
      sign = (\<lambda>u. None),
      open_raster = (\<lambda>u. if u \<in> set [''red'', ''green'', ''blue'', ''alt_nir'', ''alt_swir16'',
                                        ''alt_swir22'']
                           then Some example_raster else Some far_raster),
      stac_search = (\<lambda>c bbox. Some [alt_item]),
      scaler_fit = (\<lambda>X row. row),
      forest_fit = (\<lambda>n X y row. case y of [] \<Rightarrow> 0 | l # _ \<Rightarrow> l)\<rparr>"

text \<open>The catalog searches among the calls of a trace.\<close>

fun is_search :: "event \<Rightarrow> bool" where
  "is_search (EvSearch x y) = True"
| "is_search e = False"

definition empty_acc :: acc where
  "empty_acc = \<lparr>feature_matrix = [], labels = [], sampled_classes = [], trace = []\<rparr>"

text \<open>The array read for each band of the example scene, and the band data of a run.\<close>

definition example_array :: ndarray where
  "example_array = \<lparr>arr_shape = (2, 2), arr_flat = [100, 100, 0, 0]\<rparr>"

definition example_band_data :: "(band \<times> ndarray) list" where
  "example_band_data = map (\<lambda>b. (b, example_array)) [Red, Green, Blue, Nir, Swir16, Swir22]"

text \<open>
  A world whose rasters are 1070 pixels wide and 2 high, so that the window is
  downscaled, and one whose bands hold different values at the example point.
\<close>

definition wide_raster :: raster where
  "wide_raster =
     example_raster\<lparr>r_width := 1070, r_height := 2,
                    r_from_bounds := (\<lambda>l b r t. Some (0, 0, 1070, 2)),
                    r_read_window := (\<lambda>win shp. Some (\<lambda>i j. 100))\<rparr>"

definition wide_world :: world where
  "wide_world = (example_world all_keys)\<lparr>open_raster := (\<lambda>u. Some wide_raster)\<rparr>"

definition wide_band_data :: "(band \<times> ndarray) list" where
  "wide_band_data =
     map (\<lambda>b. (b, read_array (\<lambda>i j. 100) 1 999)) [Red, Green, Blue, Nir, Swir16, Swir22]"

definition band_value :: "string \<Rightarrow> real" where
  "band_value u =
     (if u = ''red'' then 10 else if u = ''green'' then 20 else if u = ''blue'' then 30
      else if u = ''nir'' then 40 else if u = ''swir16'' then 50 else 60)"

definition banded_world :: world where
  "banded_world =
     (example_world all_keys)
       \<lparr>open_raster := (\<lambda>u. Some (example_raster\<lparr>r_read_pixel := (\<lambda>col row. Some (band_value u))\<rparr>))\<rparr>"

definition banded_data :: "(band \<times> ndarray) list" where
  "banded_data =
     [(Red, \<lparr>arr_shape = (1, 2), arr_flat = [10, 11]\<rparr>),
      (Green, \<lparr>arr_shape = (1, 2), arr_flat = [20, 21]\<rparr>),
      (Blue, \<lparr>arr_shape = (1, 2), arr_flat = [30, 31]\<rparr>),
      (Nir, \<lparr>arr_shape = (1, 2), arr_flat = [40, 41]\<rparr>),
      (Swir16, \<lparr>arr_shape = (1, 2), arr_flat = [50, 51]\<rparr>),
      (Swir22, \<lparr>arr_shape = (1, 2), arr_flat = [60, 61]\<rparr>)]"

text \<open>
  The row that the loop of lines 171-224 appends for a point: the point has at least 4
  band values (line 189) and the row is the feature vector built from them.
\<close>

definition sampled_row :: "world \<Rightarrow> config \<Rightarrow> (band \<times> string) list \<Rightarrow> point \<Rightarrow> real list \<Rightarrow> bool" where
  "sampled_row w cfg band_urls p f =
     (4 \<le> length (fst (sample_values w (collection cfg) band_urls p))
      \<and> build_features (include_indices cfg) (fst (sample_values w (collection cfg) band_urls p))
          = Inr f)"

section \<open>Properties\<close>

subsection \<open>Resolved bands and errors of the stages\<close>

lemma urls_loop_keys:
  "map fst (urls_loop w m ks) = map fst (filter (\<lambda>(b, k). m k \<noteq> None) ks)"
  by (induction ks) (auto split: option.splits)

lemma urls_loop_length:
  "length (urls_loop w m ks) = length (filter (\<lambda>(b, k). m k \<noteq> None) ks)"
  using urls_loop_keys [of w m ks] by (metis length_map)

lemma read_band_error:
  "read_band src bnds out = Inl e \<Longrightarrow> e = RasterError \<or> e = ZeroDivisionError"
  by (auto simp: read_band_def clamped_window_def Let_def split: prod.splits option.splits sum.splits if_splits)

lemma read_bands_error:
  "read_bands w bnds out urls = Inl e \<Longrightarrow> e = RasterError \<or> e = ZeroDivisionError"
proof (induction urls arbitrary: out)
  case Nil
  then show ?case by simp
next
  case (Cons u urls)
  obtain b url where u: "u = (b, url)" by (cases u)
  from Cons.prems show ?case
    unfolding u
    by (auto split: option.splits sum.splits prod.splits dest: read_band_error Cons.IH)
qed

lemma py_min_error: "py_min xs = Inl e \<Longrightarrow> e = EmptySequence"
  by (cases xs) auto

lemma py_max_error: "py_max xs = Inl e \<Longrightarrow> e = EmptySequence"
  by (cases xs) auto

lemma window_bounds_error:
  "window_bounds src pts = Inl e \<Longrightarrow> e = EmptySequence \<or> e = RasterError"
  by (auto simp: window_bounds_def Let_def split: sum.splits option.splits prod.splits
           dest: py_min_error py_max_error)

lemma stack_pixels_error:
  "stack_pixels inc bd = Inl e \<Longrightarrow> e = KeyError ''nir'' \<or> e = ShapeError"
  by (auto simp: stack_pixels_def Let_def split: option.splits prod.splits if_splits)

lemma apply_classification_error:
  assumes "apply_classification w cfg band_urls src scaler clf = Inl e"
  shows "e = EmptySequence \<or> e = RasterError \<or> e = ZeroDivisionError
       \<or> e = KeyError ''nir'' \<or> e = ShapeError"
  using assms
  by (auto simp: apply_classification_def read_window_data_def split: sum.splits prod.splits
           dest: window_bounds_error read_bands_error stack_pixels_error)

subsection \<open>Band resolution\<close>

lemma get_band_urls_length:
  "length (get_band_urls_for_item w item) = length (filter (\<lambda>(b, k). assets item k \<noteq> None) band_keys)"
  by (simp add: get_band_urls_for_item_def urls_loop_length)

lemma get_band_urls_keys:
  "map fst (get_band_urls_for_item w item) = map fst (filter (\<lambda>(b, k). assets item k \<noteq> None) band_keys)"
  by (simp add: get_band_urls_for_item_def urls_loop_keys)

lemma classify_image_not_bands:
  assumes "resolve_primary w cfg = Inr (band_urls, src)"
  shows "fst (classify_image w cfg) \<noteq> Inl (NotEnoughBands bs)"
  using assms
  by (auto simp: classify_image_def Let_def split: sum.splits prod.splits
           dest: apply_classification_error)

lemma resolve_primary_not_bands:
  assumes "fetch_item w (stac_item_url cfg) = Some item"
    and "4 \<le> length (get_band_urls_for_item w item)"
  shows "resolve_primary w cfg \<noteq> Inl (NotEnoughBands bs)"
  using assms by (auto simp: resolve_primary_def Let_def split: option.splits)

text \<open>
  C5: with the primary scene descriptor fetched, if fewer than 4 of the 6 target bands
  have an asset, the run raises the not-enough-bands error with no call made yet (no
  point has been sampled); with 4 or more it never raises that error.
\<close>

theorem insufficient_bands:
  assumes "fetch_item w (stac_item_url cfg) = Some item"
  shows "(length (filter (\<lambda>(b, k). assets item k \<noteq> None) band_keys) < 4 \<longrightarrow>
            classify_image w cfg =
              (Inl (NotEnoughBands (map fst (filter (\<lambda>(b, k). assets item k \<noteq> None) band_keys))), []))
       \<and> (4 \<le> length (filter (\<lambda>(b, k). assets item k \<noteq> None) band_keys) \<longrightarrow>
            (\<forall>bs. fst (classify_image w cfg) \<noteq> Inl (NotEnoughBands bs)))"
proof (intro conjI impI allI)
  assume "length (filter (\<lambda>(b, k). assets item k \<noteq> None) band_keys) < 4"
  then have "length (get_band_urls_for_item w item) < 4"
    by (simp add: get_band_urls_length)
  then show "classify_image w cfg =
      (Inl (NotEnoughBands (map fst (filter (\<lambda>(b, k). assets item k \<noteq> None) band_keys))), [])"
    using assms
    by (simp add: classify_image_def resolve_primary_def get_band_urls_keys)
next
  fix bs
  assume "4 \<le> length (filter (\<lambda>(b, k). assets item k \<noteq> None) band_keys)"
  then have len: "4 \<le> length (get_band_urls_for_item w item)"
    by (simp add: get_band_urls_length)
  show "fst (classify_image w cfg) \<noteq> Inl (NotEnoughBands bs)"
  proof (cases "resolve_primary w cfg")
    case (Inl e)
    then have "e \<noteq> NotEnoughBands bs"
      using resolve_primary_not_bands [OF assms len] by auto
    with Inl show ?thesis by (simp add: classify_image_def)
  next
    case (Inr r)
    then show ?thesis
      using classify_image_not_bands [of w cfg "fst r" "snd r" bs] by simp
  qed
qed

text \<open>
  C8: a scene that passes the check of 4 bands but has no nir asset makes the run raise
  a key error on \<^verbatim>\<open>band_urls['nir']\<close>, before any sampling, fitting or writing.
\<close>

theorem missing_nir_key_error:
  assumes "fetch_item w (stac_item_url cfg) = Some item"
    and "4 \<le> length (filter (\<lambda>(b, k). assets item k \<noteq> None) band_keys)"
    and "assets item ''nir'' = None"
  shows "classify_image w cfg = (Inl (KeyError ''nir''), [])"
proof -
  have len: "\<not> length (get_band_urls_for_item w item) < 4"
    using assms(2) by (simp add: get_band_urls_length)
  have "Nir \<notin> set (map fst (get_band_urls_for_item w item))"
    using assms(3) unfolding get_band_urls_keys by (auto simp: band_keys_def)
  then have "map_of (get_band_urls_for_item w item) Nir = None"
    by (simp add: map_of_eq_None_iff)
  with len show ?thesis
    using assms(1) by (simp add: classify_image_def resolve_primary_def)
qed

lemma example_fetch:
  "fetch_item (example_world K) (stac_item_url (example_config L)) = Some (example_item K)"
  by (simp add: example_world_def)

theorem insufficient_bands_witness:
  "classify_image (example_world [''red'', ''green'', ''blue'']) (example_config [1, 1, 2])
     = (Inl (NotEnoughBands [Red, Green, Blue]), [])
   \<and> (\<forall>bs. fst (classify_image (example_world all_keys) (example_config [1, 1, 2]))
              \<noteq> Inl (NotEnoughBands bs))"
  using insufficient_bands [OF example_fetch [of "[''red'', ''green'', ''blue'']" "[1, 1, 2]"]]
        insufficient_bands [OF example_fetch [of all_keys "[1, 1, 2]"]]
  by (simp add: example_item_def band_keys_def all_keys_def)

theorem missing_nir_key_error_witness:
  "classify_image (example_world [''red'', ''green'', ''blue'', ''swir16'']) (example_config [1, 1, 2])
     = (Inl (KeyError ''nir''), [])"
  using missing_nir_key_error [OF example_fetch [of "[''red'', ''green'', ''blue'', ''swir16'']" "[1, 1, 2]"]]
  by (simp add: example_item_def band_keys_def)

subsection \<open>The training gate\<close>

lemma sample_values_trace:
  "EvFit \<notin> set (snd (sample_values w coll urls p)) \<and> EvWrite path \<notin> set (snd (sample_values w coll urls p))"
  by (simp add: sample_values_def Let_def split: option.splits)

lemma sample_training_point_trace:
  assumes "EvFit \<notin> set (trace a) \<and> EvWrite path \<notin> set (trace a)"
  shows "EvFit \<notin> set (trace (sample_training_point w cfg urls a p))
       \<and> EvWrite path \<notin> set (trace (sample_training_point w cfg urls a p))"
  using assms sample_values_trace [of w "collection cfg" urls p path]
  by (auto simp: sample_training_point_def Let_def split: prod.splits sum.splits)

lemma sample_training_points_trace:
  assumes "EvFit \<notin> set (trace a) \<and> EvWrite path \<notin> set (trace a)"
  shows "EvFit \<notin> set (trace (sample_training_points w cfg urls a ps))
       \<and> EvWrite path \<notin> set (trace (sample_training_points w cfg urls a ps))"
  using assms
proof (induction ps arbitrary: a)
  case Nil
  then show ?case by simp
next
  case (Cons p ps)
  show ?case
    using Cons.IH [OF sample_training_point_trace [OF Cons.prems]] by simp
qed

lemma training_set_trace:
  "EvFit \<notin> set (trace (training_set w cfg urls)) \<and> EvWrite path \<notin> set (trace (training_set w cfg urls))"
  unfolding training_set_def by (rule sample_training_points_trace) simp

text \<open>
  C1, as the code has it: once the primary scene is resolved, the run fails with the
  not-enough-samples error exactly when the training set has fewer than 3 rows; the
  number of distinct labels is carried by the error and is not tested. In the failure
  case the forest has not been fitted and no raster is written.
\<close>

theorem insufficient_data_gate:
  assumes "resolve_primary w cfg = Inr (band_urls, src)"
  shows "((\<exists>n k. fst (classify_image w cfg) = Inl (NotEnoughSamples n k))
            \<longleftrightarrow> length (feature_matrix (training_set w cfg band_urls)) < 3)
       \<and> (length (feature_matrix (training_set w cfg band_urls)) < 3 \<longrightarrow>
            classify_image w cfg =
              (Inl (NotEnoughSamples (length (feature_matrix (training_set w cfg band_urls)))
                                     (length (sampled_classes (training_set w cfg band_urls)))),
               trace (training_set w cfg band_urls))
            \<and> EvFit \<notin> set (snd (classify_image w cfg))
            \<and> (\<forall>path. EvWrite path \<notin> set (snd (classify_image w cfg))))"
proof -
  let ?a = "training_set w cfg band_urls"
  have fail: "classify_image w cfg =
      (Inl (NotEnoughSamples (length (feature_matrix ?a)) (length (sampled_classes ?a))), trace ?a)"
    if "length (feature_matrix ?a) < 3"
    using that assms by (simp add: classify_image_def Let_def)
  have pass: "fst (classify_image w cfg) \<noteq> Inl (NotEnoughSamples n k)"
    if "\<not> length (feature_matrix ?a) < 3" for n k
    using that assms
    by (auto simp: classify_image_def Let_def split: sum.splits prod.splits
             dest: apply_classification_error)
  show ?thesis
    using fail pass training_set_trace [of w cfg band_urls] by auto
qed

lemma example_resolve:
  "resolve_primary (example_world all_keys) (example_config L) = Inr (example_urls, example_raster)"
  by (simp add: resolve_primary_def example_world_def example_config_def example_item_def all_keys_def
      get_band_urls_for_item_def band_keys_def resolve_url_def example_urls_def)

theorem insufficient_data_gate_witness:
  "classify_image (example_world all_keys) (example_config [1, 2])
     = (Inl (NotEnoughSamples 2 2),
        trace (training_set (example_world all_keys) (example_config [1, 2]) example_urls))
   \<and> EvFit \<notin> set (snd (classify_image (example_world all_keys) (example_config [1, 2])))"
proof -
  have "length (feature_matrix (training_set (example_world all_keys) (example_config [1, 2]) example_urls)) = 2"
    by code_simp
  moreover have "length (sampled_classes (training_set (example_world all_keys) (example_config [1, 2]) example_urls)) = 2"
    by code_simp
  ultimately show ?thesis
    using insufficient_data_gate [OF example_resolve [of "[1, 2]"]] by auto
qed

text \<open>
  C1 as stated fails: three sampled rows that all carry label 1 (fewer than 2 distinct
  labels) pass the gate, the forest is fitted and the raster is written.
\<close>

theorem single_label_not_rejected:
  "resolve_primary (example_world all_keys) (example_config [1, 1, 1]) = Inr (example_urls, example_raster)
   \<and> length (feature_matrix (training_set (example_world all_keys) (example_config [1, 1, 1]) example_urls)) = 3
   \<and> remdups (labels (training_set (example_world all_keys) (example_config [1, 1, 1]) example_urls)) = [1]
   \<and> \<not> isl (fst (classify_image (example_world all_keys) (example_config [1, 1, 1])))
   \<and> last (snd (classify_image (example_world all_keys) (example_config [1, 1, 1]))) = EvWrite ''out.tif''"
proof (intro conjI)
  show "resolve_primary (example_world all_keys) (example_config [1, 1, 1]) = Inr (example_urls, example_raster)"
    by (rule example_resolve)
  show "length (feature_matrix (training_set (example_world all_keys) (example_config [1, 1, 1]) example_urls)) = 3"
    by code_simp
  show "remdups (labels (training_set (example_world all_keys) (example_config [1, 1, 1]) example_urls)) = [1]"
    by code_simp
  show "\<not> isl (fst (classify_image (example_world all_keys) (example_config [1, 1, 1])))"
    by code_simp
  show "last (snd (classify_image (example_world all_keys) (example_config [1, 1, 1]))) = EvWrite ''out.tif''"
    by code_simp
qed

subsection \<open>Shortfalls and the fallback scene\<close>

lemma sample_values_shortfall:
  assumes "length (sample_point_from_urls w band_urls (lon p) (lat p)) < 4"
  shows "filter is_search (snd (sample_values w coll band_urls p)) = [EvSearch (lon p) (lat p)]"
  using assms by (simp add: sample_values_def Let_def split: option.splits)

lemma sample_training_point_drop:
  assumes "length (fst (sample_values w (collection cfg) band_urls p)) < 4"
  shows "sample_training_point w cfg band_urls a p
           = a\<lparr>trace := trace a @ snd (sample_values w (collection cfg) band_urls p)\<rparr>"
proof (cases "sample_values w (collection cfg) band_urls p")
  case (Pair band_values evs)
  with assms show ?thesis
    by (simp add: sample_training_point_def Let_def)
qed

text \<open>
  C6: for a training point whose sample from the primary scene has fewer than 4 bands,
  the iteration makes exactly one catalog search; if the band values it ends with still
  number fewer than 4, nothing is appended for the point (matrix, labels and classes are
  unchanged) and the loop goes on with the remaining points.
\<close>

theorem shortfall_one_search_then_drop:
  assumes "length (sample_point_from_urls w band_urls (lon p) (lat p)) < 4"
  shows "length (filter is_search (snd (sample_values w (collection cfg) band_urls p))) = 1
       \<and> (length (fst (sample_values w (collection cfg) band_urls p)) < 4 \<longrightarrow>
            feature_matrix (sample_training_point w cfg band_urls a p) = feature_matrix a
          \<and> labels (sample_training_point w cfg band_urls a p) = labels a
          \<and> sampled_classes (sample_training_point w cfg band_urls a p) = sampled_classes a
          \<and> sample_training_points w cfg band_urls a (p # ps)
              = sample_training_points w cfg band_urls
                  (a\<lparr>trace := trace a @ snd (sample_values w (collection cfg) band_urls p)\<rparr>) ps)"
  using sample_values_shortfall [OF assms, of "collection cfg"]
  by (simp add: sample_training_point_drop)

lemma sample_values_fallback:
  assumes "length (sample_point_from_urls w band_urls (lon p) (lat p)) < 4"
    and "search_stac_for_point w coll (lon p) (lat p) = Some item"
    and "4 \<le> length (get_band_urls_for_item w item)"
  shows "fst (sample_values w coll band_urls p)
           = sample_point_from_urls w (get_band_urls_for_item w item) (lon p) (lat p)"
  using assms by (simp add: sample_values_def Let_def)


theorem shortfall_one_search_then_drop_witness:
  "length (filter is_search
      (snd (sample_values split_world (collection (example_config [1, 2, 3])) example_urls (example_point 1)))) = 1
   \<and> feature_matrix (sample_training_point split_world (example_config [1, 2, 3]) example_urls empty_acc (example_point 1)) = []
   \<and> sample_training_points split_world (example_config [1, 2, 3]) example_urls empty_acc [example_point 1, example_point 2]
       = sample_training_points split_world (example_config [1, 2, 3]) example_urls
           (empty_acc\<lparr>trace := trace empty_acc @
              snd (sample_values split_world (collection (example_config [1, 2, 3])) example_urls (example_point 1))\<rparr>)
           [example_point 2]"
proof -
  have h1: "length (sample_point_from_urls split_world example_urls (lon (example_point 1)) (lat (example_point 1))) < 4"
    by code_simp
  have h2: "length (fst (sample_values split_world (collection (example_config [1, 2, 3])) example_urls (example_point 1))) < 4"
    by code_simp
  have e: "feature_matrix empty_acc = []"
    by (simp add: empty_acc_def)
  show ?thesis
    using shortfall_one_search_then_drop [OF h1, of "example_config [1, 2, 3]" empty_acc "[example_point 2]"] h2 e
    by simp
qed

text \<open>
  C10: on a shortfall, when the scene found resolves at least 4 band URLs, the band
  values of the point are exactly those sampled from that scene, so the point is dropped
  whenever that sample alone has fewer than 4 bands; there are runs where it is dropped
  although the two samples together cover 4 or more bands.
\<close>

theorem fallback_replaces_values:
  "(length (sample_point_from_urls w band_urls (lon p) (lat p)) < 4
      \<and> search_stac_for_point w (collection cfg) (lon p) (lat p) = Some item
      \<and> 4 \<le> length (get_band_urls_for_item w item) \<longrightarrow>
        fst (sample_values w (collection cfg) band_urls p)
          = sample_point_from_urls w (get_band_urls_for_item w item) (lon p) (lat p)
      \<and> (length (sample_point_from_urls w (get_band_urls_for_item w item) (lon p) (lat p)) < 4 \<longrightarrow>
           feature_matrix (sample_training_point w cfg band_urls a p) = feature_matrix a))
   \<and> (\<exists>w' cfg' urls' p' item'.
         length (sample_point_from_urls w' urls' (lon p') (lat p')) < 4
       \<and> search_stac_for_point w' (collection cfg') (lon p') (lat p') = Some item'
       \<and> 4 \<le> length (get_band_urls_for_item w' item')
       \<and> 4 \<le> card (fst ` set (sample_point_from_urls w' urls' (lon p') (lat p'))
                    \<union> fst ` set (sample_point_from_urls w' (get_band_urls_for_item w' item') (lon p') (lat p')))
       \<and> feature_matrix (sample_training_point w' cfg' urls' empty_acc p') = [])"
proof (intro conjI impI)
  assume h: "length (sample_point_from_urls w band_urls (lon p) (lat p)) < 4
      \<and> search_stac_for_point w (collection cfg) (lon p) (lat p) = Some item
      \<and> 4 \<le> length (get_band_urls_for_item w item)"
  then show eq: "fst (sample_values w (collection cfg) band_urls p)
          = sample_point_from_urls w (get_band_urls_for_item w item) (lon p) (lat p)"
    by (simp add: sample_values_fallback)
  assume "length (sample_point_from_urls w (get_band_urls_for_item w item) (lon p) (lat p)) < 4"
  with eq show "feature_matrix (sample_training_point w cfg band_urls a p) = feature_matrix a"
    by (simp add: sample_training_point_drop)
next
  let ?p = "example_point 1" and ?cfg = "example_config [1, 2, 3]"
  have u: "get_band_urls_for_item split_world alt_item = alt_urls"
    by code_simp
  have 1: "length (sample_point_from_urls split_world example_urls (lon ?p) (lat ?p)) < 4"
    by code_simp
  have 2: "search_stac_for_point split_world (collection ?cfg) (lon ?p) (lat ?p) = Some alt_item"
    by (simp add: search_stac_for_point_def split_world_def)
  have 3: "4 \<le> length (get_band_urls_for_item split_world alt_item)"
    unfolding u by (simp add: alt_urls_def)
  have p1: "map fst (sample_point_from_urls split_world example_urls (lon ?p) (lat ?p)) = [Red, Green, Blue]"
    by code_simp
  have p2: "map fst (sample_point_from_urls split_world alt_urls (lon ?p) (lat ?p)) = [Nir, Swir16, Swir22]"
    by code_simp
  have "fst ` set (sample_point_from_urls split_world example_urls (lon ?p) (lat ?p))
          \<union> fst ` set (sample_point_from_urls split_world alt_urls (lon ?p) (lat ?p))
        = set [Red, Green, Blue] \<union> set [Nir, Swir16, Swir22]"
    unfolding p1 [symmetric] p2 [symmetric] by simp
  then have 4: "4 \<le> card (fst ` set (sample_point_from_urls split_world example_urls (lon ?p) (lat ?p))
          \<union> fst ` set (sample_point_from_urls split_world (get_band_urls_for_item split_world alt_item) (lon ?p) (lat ?p)))"
    unfolding u by simp
  have 5: "feature_matrix (sample_training_point split_world ?cfg example_urls empty_acc ?p) = []"
    by code_simp
  from 1 2 3 4 5 show "\<exists>w' cfg' urls' p' item'.
         length (sample_point_from_urls w' urls' (lon p') (lat p')) < 4
       \<and> search_stac_for_point w' (collection cfg') (lon p') (lat p') = Some item'
       \<and> 4 \<le> length (get_band_urls_for_item w' item')
       \<and> 4 \<le> card (fst ` set (sample_point_from_urls w' urls' (lon p') (lat p'))
                    \<union> fst ` set (sample_point_from_urls w' (get_band_urls_for_item w' item') (lon p') (lat p')))
       \<and> feature_matrix (sample_training_point w' cfg' urls' empty_acc p') = []"
    by blast
qed

theorem fallback_replaces_values_witness:
  "fst (sample_values split_world (collection (example_config [1, 2, 3])) example_urls (example_point 1))
     = sample_point_from_urls split_world (get_band_urls_for_item split_world alt_item)
         (lon (example_point 1)) (lat (example_point 1))
   \<and> feature_matrix (sample_training_point split_world (example_config [1, 2, 3]) example_urls
        empty_acc (example_point 1)) = feature_matrix empty_acc"
proof -
  let ?p = "example_point 1" and ?cfg = "example_config [1, 2, 3]"
  have 1: "length (sample_point_from_urls split_world example_urls (lon ?p) (lat ?p)) < 4"
    by code_simp
  have 2: "search_stac_for_point split_world (collection ?cfg) (lon ?p) (lat ?p) = Some alt_item"
    by (simp add: search_stac_for_point_def split_world_def)
  have 3: "4 \<le> length (get_band_urls_for_item split_world alt_item)"
    by code_simp
  have 4: "length (sample_point_from_urls split_world (get_band_urls_for_item split_world alt_item)
             (lon ?p) (lat ?p)) < 4"
    by code_simp
  show ?thesis
    using fallback_replaces_values [of split_world example_urls ?p ?cfg alt_item empty_acc] 1 2 3 4
    by blast
qed

subsection \<open>Feature vectors\<close>

lemma build_features_shape:
  assumes "build_features inc bv = Inr f"
  shows "length f = (if inc then 10 else 6)
       \<and> take 6 f = map (band_get bv) [Red, Green, Blue, Nir, Swir16, Swir22]
       \<and> (inc \<longrightarrow> map Inr (drop 6 f) =
             [ndvi (band_get bv Nir) (band_get bv Red), ndwi (band_get bv Green) (band_get bv Nir),
              ndbi (band_get bv Swir16) (band_get bv Nir),
              evi (band_get bv Nir) (band_get bv Red) (band_get bv Blue)])"
  using assms
  by (auto simp: build_features_def Let_def split: if_splits sum.splits)

lemma pixel_row_shape:
  "length (pixel_row inc r g b n s s22) = (if inc then 10 else 6)
   \<and> take 6 (pixel_row inc r g b n s s22) = map Fin [r, g, b, n, s, s22]
   \<and> (inc \<longrightarrow> drop 6 (pixel_row inc r g b n s s22) = [np_ndvi n r, np_ndwi g n, np_ndbi s n, np_evi n r b])"
  by (simp add: pixel_row_def)

lemma stack_pixels_rows:
  assumes "stack_pixels inc band_data = Inr (height, width, pixels)"
  shows "length pixels = height * width"
    and "i < height * width \<Longrightarrow>
          pixels ! i = pixel_row inc (band_column band_data (height * width) Red ! i)
                         (band_column band_data (height * width) Green ! i)
                         (band_column band_data (height * width) Blue ! i)
                         (band_column band_data (height * width) Nir ! i)
                         (band_column band_data (height * width) Swir16 ! i)
                         (band_column band_data (height * width) Swir22 ! i)"
  using assms
  by (auto simp: stack_pixels_def Let_def split: option.splits prod.splits if_splits)

lemma sample_training_point_from:
  assumes "\<forall>f \<in> set (feature_matrix a). \<exists>q \<in> S. sampled_row w cfg urls q f" and "p \<in> S"
  shows "\<forall>f \<in> set (feature_matrix (sample_training_point w cfg urls a p)).
           \<exists>q \<in> S. sampled_row w cfg urls q f"
proof (cases "sample_values w (collection cfg) urls p")
  case (Pair band_values evs)
  show ?thesis
  proof (cases "build_features (include_indices cfg) band_values")
    case (Inl e)
    with Pair assms(1) show ?thesis
      by (simp add: sample_training_point_def Let_def)
  next
    case (Inr features)
    show ?thesis
    proof (cases "4 \<le> length band_values")
      case True
      with Pair Inr have "sampled_row w cfg urls p features"
        by (simp add: sampled_row_def)
      with assms(2) have "\<exists>q \<in> S. sampled_row w cfg urls q features" by blast
      with Pair Inr True assms(1) show ?thesis
        by (auto simp: sample_training_point_def Let_def)
    next
      case False
      with Pair assms(1) show ?thesis
        by (simp add: sample_training_point_def Let_def)
    qed
  qed
qed

lemma sample_training_points_from:
  assumes "\<forall>f \<in> set (feature_matrix a). \<exists>q \<in> S. sampled_row w cfg urls q f" and "set ps \<subseteq> S"
  shows "\<forall>f \<in> set (feature_matrix (sample_training_points w cfg urls a ps)).
           \<exists>q \<in> S. sampled_row w cfg urls q f"
  using assms
proof (induction ps arbitrary: a)
  case Nil
  then show ?case by simp
next
  case (Cons p ps)
  from Cons.prems(2) have p: "p \<in> S" and ps: "set ps \<subseteq> S" by simp_all
  show ?case
    using Cons.IH [OF sample_training_point_from [OF Cons.prems(1) p] ps] by simp
qed

lemma training_set_from:
  assumes "f \<in> set (feature_matrix (training_set w cfg urls))"
  shows "\<exists>p \<in> set (training_data cfg). sampled_row w cfg urls p f"
proof -
  have "\<forall>f \<in> set (feature_matrix (training_set w cfg urls)).
           \<exists>q \<in> set (training_data cfg). sampled_row w cfg urls q f"
    unfolding training_set_def by (rule sample_training_points_from) simp_all
  with assms show ?thesis by blast
qed

text \<open>
  C2: for one configuration, every row of the training matrix (point path) and every
  row of the pixel matrix (bulk path) has length 10 when \<open>include_indices\<close> is set and 6
  otherwise. A training row is built from the band values sampled for one of the
  training points, a pixel row from the band columns at the pixel: its first six cells
  are the red, green, blue, nir, swir16 and swir22 values in this order, followed, when
  enabled, by NDVI, NDWI, NDBI and EVI of these values.
\<close>

theorem feature_vector_length:
  "(f \<in> set (feature_matrix (training_set w cfg band_urls)) \<longrightarrow>
      length f = (if include_indices cfg then 10 else 6)
    \<and> (\<exists>p \<in> set (training_data cfg). \<exists>bv.
          bv = fst (sample_values w (collection cfg) band_urls p) \<and> 4 \<le> length bv
        \<and> take 6 f = [band_get bv Red, band_get bv Green, band_get bv Blue,
                       band_get bv Nir, band_get bv Swir16, band_get bv Swir22]
        \<and> (include_indices cfg \<longrightarrow> map Inr (drop 6 f) =
              [ndvi (band_get bv Nir) (band_get bv Red), ndwi (band_get bv Green) (band_get bv Nir),
               ndbi (band_get bv Swir16) (band_get bv Nir),
               evi (band_get bv Nir) (band_get bv Red) (band_get bv Blue)])))
   \<and> (stack_pixels (include_indices cfg) band_data = Inr (height, width, pixels) \<and> i < length pixels \<longrightarrow>
      length (pixels ! i) = (if include_indices cfg then 10 else 6)
    \<and> (\<exists>r g b n s s22.
          [r, g, b, n, s, s22] = map (\<lambda>c. band_column band_data (height * width) c ! i)
                                      [Red, Green, Blue, Nir, Swir16, Swir22]
        \<and> take 6 (pixels ! i) = map Fin [r, g, b, n, s, s22]
        \<and> (include_indices cfg \<longrightarrow>
              drop 6 (pixels ! i) = [np_ndvi n r, np_ndwi g n, np_ndbi s n, np_evi n r b])))"
proof (intro conjI impI)
  assume "f \<in> set (feature_matrix (training_set w cfg band_urls))"
  then obtain p where p: "p \<in> set (training_data cfg)" and row: "sampled_row w cfg band_urls p f"
    using training_set_from by blast
  define bv where "bv = fst (sample_values w (collection cfg) band_urls p)"
  from row have len: "4 \<le> length bv" and bf: "build_features (include_indices cfg) bv = Inr f"
    by (simp_all add: sampled_row_def bv_def)
  from build_features_shape [OF bf]
  show "length f = (if include_indices cfg then 10 else 6)"
    by simp
  from build_features_shape [OF bf] len
  have "bv = fst (sample_values w (collection cfg) band_urls p) \<and> 4 \<le> length bv
        \<and> take 6 f = [band_get bv Red, band_get bv Green, band_get bv Blue,
                       band_get bv Nir, band_get bv Swir16, band_get bv Swir22]
        \<and> (include_indices cfg \<longrightarrow> map Inr (drop 6 f) =
              [ndvi (band_get bv Nir) (band_get bv Red), ndwi (band_get bv Green) (band_get bv Nir),
               ndbi (band_get bv Swir16) (band_get bv Nir),
               evi (band_get bv Nir) (band_get bv Red) (band_get bv Blue)])"
    by (simp add: bv_def)
  with p show "\<exists>p \<in> set (training_data cfg). \<exists>bv.
          bv = fst (sample_values w (collection cfg) band_urls p) \<and> 4 \<le> length bv
        \<and> take 6 f = [band_get bv Red, band_get bv Green, band_get bv Blue,
                       band_get bv Nir, band_get bv Swir16, band_get bv Swir22]
        \<and> (include_indices cfg \<longrightarrow> map Inr (drop 6 f) =
              [ndvi (band_get bv Nir) (band_get bv Red), ndwi (band_get bv Green) (band_get bv Nir),
               ndbi (band_get bv Swir16) (band_get bv Nir),
               evi (band_get bv Nir) (band_get bv Red) (band_get bv Blue)])"
    by (intro bexI [of _ p] exI [of _ bv])
next
  assume h: "stack_pixels (include_indices cfg) band_data = Inr (height, width, pixels) \<and> i < length pixels"
  then have i: "i < height * width"
    using stack_pixels_rows(1) by fastforce
  note row = stack_pixels_rows(2) [OF conjunct1 [OF h] i]
  show "length (pixels ! i) = (if include_indices cfg then 10 else 6)"
    unfolding row using pixel_row_shape by blast
  show "\<exists>r g b n s s22.
          [r, g, b, n, s, s22] = map (\<lambda>c. band_column band_data (height * width) c ! i)
                                      [Red, Green, Blue, Nir, Swir16, Swir22]
        \<and> take 6 (pixels ! i) = map Fin [r, g, b, n, s, s22]
        \<and> (include_indices cfg \<longrightarrow>
              drop 6 (pixels ! i) = [np_ndvi n r, np_ndwi g n, np_ndbi s n, np_evi n r b])"
    unfolding row using pixel_row_shape by auto
qed

theorem feature_vector_length_witness:
  "length (hd (feature_matrix (training_set banded_world (example_config [1, 1, 1]) example_urls))) = 10
   \<and> take 6 (hd (feature_matrix (training_set banded_world (example_config [1, 1, 1]) example_urls)))
       = [10, 20, 30, 40, 50, 60]
   \<and> map Inr (drop 6 (hd (feature_matrix (training_set banded_world (example_config [1, 1, 1]) example_urls))))
       = [ndvi 40 10, ndwi 20 40, ndbi 50 40, evi 40 10 30]
   \<and> length (snd (snd (projr (stack_pixels True banded_data))) ! 1) = 10
   \<and> take 6 (snd (snd (projr (stack_pixels True banded_data))) ! 1) = map Fin [11, 21, 31, 41, 51, 61]
   \<and> drop 6 (snd (snd (projr (stack_pixels True banded_data))) ! 1)
       = [np_ndvi 41 11, np_ndwi 21 41, np_ndbi 51 41, np_evi 41 11 31]"
proof -
  let ?cfg = "example_config [1, 1, 1]"
  let ?fm = "feature_matrix (training_set banded_world ?cfg example_urls)"
  let ?px = "snd (snd (projr (stack_pixels True banded_data)))"
  let ?bv = "[(Red, 10), (Green, 20), (Blue, 30), (Nir, 40), (Swir16, 50), (Swir22, 60 :: real)]"
  have h1: "hd ?fm \<in> set ?fm"
    by code_simp
  have h2: "stack_pixels (include_indices ?cfg) banded_data = Inr (1, 2, ?px)"
    by code_simp
  have h3: "include_indices ?cfg"
    by (simp add: example_config_def)
  have h4: "1 < length ?px"
    by code_simp
  have hp: "set (training_data ?cfg) = {example_point 1}"
    by (simp add: example_config_def)
  have hb: "fst (sample_values banded_world (collection ?cfg) example_urls (example_point 1)) = ?bv"
    by code_simp
  note inst = feature_vector_length [of "hd ?fm" banded_world ?cfg example_urls banded_data 1 2 ?px 1]
  note pt = inst [THEN conjunct1, rule_format, OF h1]
  note len = pt [THEN conjunct1]
  from pt [THEN conjunct2] obtain p bv where
    "p \<in> set (training_data ?cfg)"
    "bv = fst (sample_values banded_world (collection ?cfg) example_urls p)"
    and t: "take 6 (hd ?fm) = [band_get bv Red, band_get bv Green, band_get bv Blue,
                       band_get bv Nir, band_get bv Swir16, band_get bv Swir22]"
    and d: "include_indices ?cfg \<longrightarrow> map Inr (drop 6 (hd ?fm)) =
              [ndvi (band_get bv Nir) (band_get bv Red), ndwi (band_get bv Green) (band_get bv Nir),
               ndbi (band_get bv Swir16) (band_get bv Nir),
               evi (band_get bv Nir) (band_get bv Red) (band_get bv Blue)]"
    by (elim bexE exE conjE)
  then have "p = example_point 1"
    using hp by simp
  with \<open>bv = fst (sample_values banded_world (collection ?cfg) example_urls p)\<close>
  have bv: "bv = ?bv"
    using hb by simp
  have g: "band_get ?bv Red = 10" "band_get ?bv Green = 20" "band_get ?bv Blue = 30"
    "band_get ?bv Nir = 40" "band_get ?bv Swir16 = 50" "band_get ?bv Swir22 = 60"
    by (simp_all add: band_get_def)
  have point: "length (hd ?fm) = 10 \<and> take 6 (hd ?fm) = [10, 20, 30, 40, 50, 60]
      \<and> map Inr (drop 6 (hd ?fm)) = [ndvi 40 10, ndwi 20 40, ndbi 50 40, evi 40 10 30]"
    using len t d h3 unfolding bv g by simp
  have c: "map (\<lambda>c. band_column banded_data (1 * 2) c ! 1) [Red, Green, Blue, Nir, Swir16, Swir22]
             = [11, 21, 31, 41, 51, 61]"
    by (simp add: band_column_def banded_data_def)
  note bk = inst [THEN conjunct2, rule_format, OF conjI [OF h2 h4]]
  note blen = bk [THEN conjunct1]
  from bk [THEN conjunct2] obtain r g' b n s s22 where
    v: "[r, g', b, n, s, s22] = map (\<lambda>c. band_column banded_data (1 * 2) c ! 1)
                                      [Red, Green, Blue, Nir, Swir16, Swir22]"
    and bt: "take 6 (?px ! 1) = map Fin [r, g', b, n, s, s22]"
    and bd: "include_indices ?cfg \<longrightarrow>
              drop 6 (?px ! 1) = [np_ndvi n r, np_ndwi g' n, np_ndbi s n, np_evi n r b]"
    by (elim exE conjE)
  from v [unfolded c] have "r = 11 \<and> g' = 21 \<and> b = 31 \<and> n = 41 \<and> s = 51 \<and> s22 = 61"
    by simp
  with blen bt bd h3 have bulk: "length (?px ! 1) = 10
      \<and> take 6 (?px ! 1) = map Fin [11, 21, 31, 41, 51, 61]
      \<and> drop 6 (?px ! 1) = [np_ndvi 41 11, np_ndwi 21 41, np_ndbi 51 41, np_evi 41 11 31]"
    by simp
  from point bulk show ?thesis by simp
qed

subsection \<open>Spectral indices\<close>





subsection \<open>Classification of the window\<close>

lemma mask_assign_select:
  "length arr = length xs \<Longrightarrow>
   mask_assign (map P xs) arr (map f (mask_select (map P xs) (map g xs)))
     = map (\<lambda>(a, x). if P x then f (g x) else a) (zip arr xs)"
proof (induction xs arbitrary: arr)
  case Nil
  then show ?case by (simp add: mask_select_def)
next
  case (Cons x xs)
  then obtain a arr' where arr: "arr = a # arr'" and len: "length arr' = length xs"
    by (cases arr) auto
  from Cons.IH [OF len] show ?case
    unfolding arr by (cases "P x") (simp_all add: mask_select_def)
qed

lemma classify_pixels_map:
  "classify_pixels scaler clf pixels
     = map (\<lambda>row. if cell_pos (row ! 3) then word_of_int (clf (scaler row)) else 0) pixels"
proof -
  let ?P = "\<lambda>row. cell_pos (row ! 3)"
  have sel: "mask_assign (map ?P pixels) (replicate (length pixels) (0 :: 8 word))
          (map (\<lambda>row. word_of_int (clf row)) (mask_select (map ?P pixels) (map scaler pixels)))
        = map (\<lambda>(a, x). if ?P x then word_of_int (clf (scaler x)) else a)
            (zip (replicate (length pixels) (0 :: 8 word)) pixels)"
    by (rule mask_assign_select) simp
  have z: "map (\<lambda>(a, x). if ?P x then word_of_int (clf (scaler x)) else a)
            (zip (replicate (length pixels) (0 :: 8 word)) pixels)
        = map (\<lambda>row. if ?P row then word_of_int (clf (scaler row)) else 0) pixels"
    by (rule nth_equalityI) simp_all
  show ?thesis
  proof (cases "\<exists>m \<in> set (map ?P pixels). m")
    case True
    then show ?thesis
      unfolding classify_pixels_def Let_def using sel z by simp
  next
    case False
    then have "\<forall>row \<in> set pixels. \<not> ?P row" by auto
    then have "map (\<lambda>row. if ?P row then word_of_int (clf (scaler row)) else (0 :: 8 word)) pixels
        = replicate (length pixels) 0"
      by (intro nth_equalityI) simp_all
    with False show ?thesis
      unfolding classify_pixels_def Let_def by simp
  qed
qed



lemma classify_image_success:
  assumes "fst (classify_image w cfg) = Inr res"
    and "resolve_primary w cfg = Inr (band_urls, src)"
    and "read_window_data w cfg band_urls src = Inr (bnds, band_data, out)"
  shows "\<exists>pixels. stack_pixels (include_indices cfg) band_data = Inr (res_height res, res_width res, pixels)
         \<and> res_raster res = classify_pixels (fitted_scaler w (training_set w cfg band_urls))
                                (fitted_forest w cfg (training_set w cfg band_urls)) pixels"
  using assms
  by (auto simp: classify_image_def apply_classification_def Let_def
           split: if_splits sum.splits prod.splits)

lemma stack_pixels_nir:
  assumes "stack_pixels inc band_data = Inr (height, width, pixels)"
    and "map_of band_data Nir = Some a"
    and "i < height * width"
  shows "pixels ! i ! 3 = Fin (arr_flat a ! i)"
  using stack_pixels_rows(2) [OF assms(1) assms(3)] assms(2)
  by (simp add: pixel_row_def band_column_def)

lemma classify_pixels_invalid:
  assumes "stack_pixels inc band_data = Inr (height, width, pixels)"
    and "map_of band_data Nir = Some a"
    and "i < height * width"
    and "arr_flat a ! i \<le> 0"
  shows "classify_pixels scaler clf pixels ! i = 0"
proof -
  have len: "i < length pixels"
    using stack_pixels_rows(1) [OF assms(1)] assms(3) by simp
  have "\<not> cell_pos (pixels ! i ! 3)"
    using stack_pixels_nir [OF assms(1-3)] assms(4) by simp
  with len show ?thesis
    by (simp add: classify_pixels_map)
qed


lemma example_window_data:
  "read_window_data (example_world all_keys) (example_config [1, 1, 1]) example_urls example_raster
     = Inr ((1 / 2, 1 / 2, 3 / 2, 3 / 2), example_band_data, Some (2, 2))"
  by code_simp

text \<open>
  C3: a pixel of the window whose nir value is not greater than 0 gets the value 0 in
  the classification, whatever scaler and forest are used; so it does in the raster
  written by a run, for the nir array the run has read.
\<close>

theorem invalid_pixels_are_nodata:
  "(stack_pixels inc band_data = Inr (height, width, pixels) \<and> map_of band_data Nir = Some a
      \<and> i < height * width \<and> arr_flat a ! i \<le> 0 \<longrightarrow>
        classify_pixels scaler clf pixels ! i = 0)
   \<and> (fst (classify_image w cfg) = Inr res \<and> resolve_primary w cfg = Inr (band_urls, src)
      \<and> read_window_data w cfg band_urls src = Inr (bnds, band_data', out)
      \<and> map_of band_data' Nir = Some a' \<and> j < res_height res * res_width res
      \<and> arr_flat a' ! j \<le> 0 \<longrightarrow>
        length (res_raster res) = res_height res * res_width res \<and> res_raster res ! j = 0)"
proof (intro conjI impI)
  assume "stack_pixels inc band_data = Inr (height, width, pixels) \<and> map_of band_data Nir = Some a
      \<and> i < height * width \<and> arr_flat a ! i \<le> 0"
  then show "classify_pixels scaler clf pixels ! i = 0"
    using classify_pixels_invalid by blast
next
  assume h: "fst (classify_image w cfg) = Inr res \<and> resolve_primary w cfg = Inr (band_urls, src)
      \<and> read_window_data w cfg band_urls src = Inr (bnds, band_data', out)
      \<and> map_of band_data' Nir = Some a' \<and> j < res_height res * res_width res
      \<and> arr_flat a' ! j \<le> 0"
  then obtain pixels' where
    st: "stack_pixels (include_indices cfg) band_data' = Inr (res_height res, res_width res, pixels')"
    and cl: "res_raster res = classify_pixels (fitted_scaler w (training_set w cfg band_urls))
                                (fitted_forest w cfg (training_set w cfg band_urls)) pixels'"
    using classify_image_success by blast
  show "length (res_raster res) = res_height res * res_width res"
    unfolding cl using stack_pixels_rows(1) [OF st] by (simp add: classify_pixels_map)
  show "res_raster res ! j = 0"
    unfolding cl using classify_pixels_invalid [OF st] h by blast
qed

theorem invalid_pixels_are_nodata_witness:
  "classify_pixels (\<lambda>row. row) (\<lambda>row. 7) (snd (snd (projr (stack_pixels True example_band_data)))) ! 2 = 0
   \<and> res_raster (projr (fst (classify_image (example_world all_keys) (example_config [1, 1, 1])))) ! 3 = 0"
proof -
  let ?w = "example_world all_keys" and ?cfg = "example_config [1, 1, 1]"
  let ?res = "projr (fst (classify_image ?w ?cfg))"
  have s: "stack_pixels True example_band_data
             = Inr (2, 2, snd (snd (projr (stack_pixels True example_band_data))))"
    by code_simp
  have n: "map_of example_band_data Nir = Some example_array"
    by (simp add: example_band_data_def)
  have v2: "(2 :: nat) < 2 * 2 \<and> arr_flat example_array ! 2 \<le> 0"
    by (simp add: example_array_def)
  have r: "fst (classify_image ?w ?cfg) = Inr ?res"
    by code_simp
  have d: "(3 :: nat) < res_height ?res * res_width ?res"
    by code_simp
  have v3: "arr_flat example_array ! 3 \<le> 0"
    by (simp add: example_array_def)
  show ?thesis
    using invalid_pixels_are_nodata [of True example_band_data 2 2
            "snd (snd (projr (stack_pixels True example_band_data)))" example_array 2
            "\<lambda>row. row" "\<lambda>row. 7" ?w ?cfg ?res example_urls example_raster
            "(1 / 2, 1 / 2, 3 / 2, 3 / 2)" example_band_data "Some (2, 2)" example_array 3]
          s n v2 r d v3 example_resolve [of "[1, 1, 1]"] example_window_data
    by simp
qed

lemma uint_label: "uint (word_of_int k :: 8 word) = k mod 256"
  by (simp add: uint_word_of_int_eq take_bit_eq_mod)

lemma classify_pixels_valid:
  assumes "i < length pixels" and "cell_pos (pixels ! i ! 3)"
  shows "classify_pixels scaler clf pixels ! i = word_of_int (clf (scaler (pixels ! i)))"
  using assms by (simp add: classify_pixels_map)

text \<open>
  C9: the classification is an array of unsigned bytes. For a valid pixel the value
  stored is the predicted label modulo 256, so a predicted label 256 is stored as 0, the
  nodata value; the raster a run writes holds these values for the forest it fitted.
\<close>

theorem labels_stored_mod_256:
  "(i < length pixels \<and> cell_pos (pixels ! i ! 3) \<longrightarrow>
      uint (classify_pixels scaler clf pixels ! i) = clf (scaler (pixels ! i)) mod 256
    \<and> (clf (scaler (pixels ! i)) = 256 \<longrightarrow> classify_pixels scaler clf pixels ! i = 0))
   \<and> (fst (classify_image w cfg) = Inr res \<and> resolve_primary w cfg = Inr (band_urls, src)
      \<and> read_window_data w cfg band_urls src = Inr (bnds, band_data, out)
      \<and> stack_pixels (include_indices cfg) band_data = Inr (height, width, pixels')
      \<and> j < length pixels' \<and> cell_pos (pixels' ! j ! 3) \<longrightarrow>
        uint (res_raster res ! j)
          = fitted_forest w cfg (training_set w cfg band_urls)
              (fitted_scaler w (training_set w cfg band_urls) (pixels' ! j)) mod 256)"
proof (intro conjI impI)
  assume h: "i < length pixels \<and> cell_pos (pixels ! i ! 3)"
  then have v: "classify_pixels scaler clf pixels ! i = word_of_int (clf (scaler (pixels ! i)))"
    by (simp add: classify_pixels_valid)
  show "uint (classify_pixels scaler clf pixels ! i) = clf (scaler (pixels ! i)) mod 256"
    unfolding v by (rule uint_label)
  assume "clf (scaler (pixels ! i)) = 256"
  then show "classify_pixels scaler clf pixels ! i = 0"
    unfolding v by simp
next
  assume h: "fst (classify_image w cfg) = Inr res \<and> resolve_primary w cfg = Inr (band_urls, src)
      \<and> read_window_data w cfg band_urls src = Inr (bnds, band_data, out)
      \<and> stack_pixels (include_indices cfg) band_data = Inr (height, width, pixels')
      \<and> j < length pixels' \<and> cell_pos (pixels' ! j ! 3)"
  then obtain px where
    st: "stack_pixels (include_indices cfg) band_data = Inr (res_height res, res_width res, px)"
    and cl: "res_raster res = classify_pixels (fitted_scaler w (training_set w cfg band_urls))
                                (fitted_forest w cfg (training_set w cfg band_urls)) px"
    using classify_image_success by blast
  from st h have px: "px = pixels'" by simp
  show "uint (res_raster res ! j)
          = fitted_forest w cfg (training_set w cfg band_urls)
              (fitted_scaler w (training_set w cfg band_urls) (pixels' ! j)) mod 256"
    unfolding cl px using h by (simp add: classify_pixels_valid uint_label)
qed

lemma example_window_data_256:
  "read_window_data (example_world all_keys) (example_config [256, 1, 1]) example_urls example_raster
     = Inr ((1 / 2, 1 / 2, 3 / 2, 3 / 2), example_band_data, Some (2, 2))"
  by code_simp

theorem labels_stored_mod_256_witness:
  "uint (classify_pixels (\<lambda>row. row) (\<lambda>row. 257) [pixel_row False 1 1 1 1 1 1] ! 0) = 1
   \<and> classify_pixels (\<lambda>row. row) (\<lambda>row. 256) [pixel_row False 1 1 1 1 1 1] ! 0 = 0
   \<and> uint (res_raster (projr (fst (classify_image (example_world all_keys) (example_config [256, 1, 1])))) ! 0) = 0"
proof -
  let ?w = "example_world all_keys" and ?cfg = "example_config [256, 1, 1]"
  let ?res = "projr (fst (classify_image ?w ?cfg))"
  let ?px = "snd (snd (projr (stack_pixels True example_band_data)))"
  have c: "cell_pos ([pixel_row False 1 1 1 1 1 1] ! 0 ! 3)"
    by (simp add: pixel_row_def)
  have r: "fst (classify_image ?w ?cfg) = Inr ?res"
    by code_simp
  have s: "stack_pixels (include_indices ?cfg) example_band_data = Inr (2, 2, ?px)"
    by code_simp
  have v: "0 < length ?px \<and> cell_pos (?px ! 0 ! 3)"
    by code_simp
  have f: "fitted_forest ?w ?cfg (training_set ?w ?cfg example_urls)
             (fitted_scaler ?w (training_set ?w ?cfg example_urls) (?px ! 0)) = 256"
    by code_simp
  show ?thesis
    using labels_stored_mod_256 [of 0 "[pixel_row False 1 1 1 1 1 1]" "\<lambda>row. row" "\<lambda>row. 257"]
          labels_stored_mod_256 [of 0 "[pixel_row False 1 1 1 1 1 1]" "\<lambda>row. row" "\<lambda>row. 256"
            ?w ?cfg ?res example_urls example_raster "(1 / 2, 1 / 2, 3 / 2, 3 / 2)"
            example_band_data "Some (2, 2)" 2 2 ?px 0]
          c r s v f example_resolve [of "[256, 1, 1]"] example_window_data_256
    by simp
qed

subsection \<open>Output size\<close>

lemma round_even_error: "\<bar>real_of_int (round_even z) - z\<bar> \<le> 1 / 2"
proof -
  define f where "f = \<lfloor>z\<rfloor>"
  have b: "real_of_int f \<le> z" "z < real_of_int f + 1"
    unfolding f_def by linarith+
  have r: "round_even z = f \<and> z - real_of_int f \<le> 1 / 2
           \<or> round_even z = f + 1 \<and> 1 / 2 \<le> z - real_of_int f"
    unfolding round_even_def Let_def f_def [symmetric] by auto
  then show ?thesis
  proof
    assume "round_even z = f \<and> z - real_of_int f \<le> 1 / 2"
    with b show ?thesis by simp
  next
    assume "round_even z = f + 1 \<and> 1 / 2 \<le> z - real_of_int f"
    with b show ?thesis by simp
  qed
qed

lemma real_pow_le_floor:
  assumes "2 ^ n \<le> \<lfloor>x :: real\<rfloor>"
  shows "(2 :: real) ^ n \<le> x"
proof -
  have "(2 :: real) ^ n = real_of_int (2 ^ n)" by simp
  also have "\<dots> \<le> real_of_int \<lfloor>x\<rfloor>"
    using assms by (simp only: of_int_le_iff)
  also have "\<dots> \<le> x" by (rule of_int_floor_le)
  finally show ?thesis .
qed

lemma real_lt_pow_floor:
  assumes "\<lfloor>x :: real\<rfloor> < 2 ^ n"
  shows "x < (2 :: real) ^ n"
proof -
  have "\<lfloor>x\<rfloor> + 1 \<le> 2 ^ n" using assms by linarith
  then have "real_of_int (\<lfloor>x\<rfloor> + 1) \<le> real_of_int (2 ^ n)"
    by (simp only: of_int_le_iff)
  moreover have "x < real_of_int (\<lfloor>x\<rfloor> + 1)" by linarith
  moreover have "real_of_int (2 ^ n) = (2 :: real) ^ n" by simp
  ultimately show ?thesis by linarith
qed

lemma real_pow_lt_ceiling:
  assumes "2 ^ n \<le> \<lceil>y :: real\<rceil> - 1"
  shows "(2 :: real) ^ n < y"
proof -
  have "(2 :: real) ^ n = real_of_int (2 ^ n)" by simp
  also have "\<dots> \<le> real_of_int (\<lceil>y\<rceil> - 1)"
    using assms by (simp only: of_int_le_iff)
  also have "\<dots> < y" by linarith
  finally show ?thesis .
qed

lemma real_le_pow_ceiling:
  assumes "\<lceil>y :: real\<rceil> - 1 < 2 ^ n"
  shows "y \<le> (2 :: real) ^ n"
proof -
  have "\<lceil>y\<rceil> \<le> 2 ^ n" using assms by linarith
  then have "real_of_int \<lceil>y\<rceil> \<le> real_of_int (2 ^ n)"
    by (simp only: of_int_le_iff)
  moreover have "y \<le> real_of_int \<lceil>y\<rceil>" by linarith
  moreover have "real_of_int (2 ^ n) = (2 :: real) ^ n" by simp
  ultimately show ?thesis by linarith
qed

lemma binade_ge1:
  assumes "1 \<le> x"
  shows "2 powi binade x \<le> x \<and> x < 2 powi (binade x + 1)"
proof -
  let ?n = "\<lfloor>x\<rfloor>"
  have n: "0 < ?n" using assms by linarith
  from bitlen_bounds [OF n] have lo: "2 ^ nat (bitlen ?n - 1) \<le> ?n" and hi: "?n < 2 ^ nat (bitlen ?n)"
    by auto
  have b1: "1 \<le> bitlen ?n"
    using n by (auto simp: bitlen_alt_def)
  note l = real_pow_le_floor [OF lo] and h = real_lt_pow_floor [OF hi]
  have e1: "(2 :: real) powi (bitlen ?n - 1) = 2 ^ nat (bitlen ?n - 1)"
    using b1 by (simp add: power_int_def)
  have e2: "(2 :: real) powi (bitlen ?n - 1 + 1) = 2 ^ nat (bitlen ?n)"
    using b1 by (simp add: power_int_def)
  have "binade x = bitlen ?n - 1"
    using assms by (simp add: binade_def)
  with l h e1 e2 show ?thesis by simp
qed

lemma binade_lt1:
  assumes "0 < x" and "x < 1"
  shows "2 powi binade x \<le> x \<and> x < 2 powi (binade x + 1)"
proof -
  define y where "y = 1 / x"
  define k where "k = bitlen (\<lceil>y\<rceil> - 1)"
  have y: "1 < y" using assms by (simp add: y_def)
  then have n: "0 < \<lceil>y\<rceil> - 1" by linarith
  from bitlen_bounds [OF n] have lo: "2 ^ nat (k - 1) \<le> \<lceil>y\<rceil> - 1" and hi: "\<lceil>y\<rceil> - 1 < 2 ^ nat k"
    by (auto simp: k_def)
  have k1: "1 \<le> k"
    using n by (auto simp: bitlen_alt_def k_def)
  note l = real_pow_lt_ceiling [OF lo] and h = real_le_pow_ceiling [OF hi]
  have p1: "(2 :: real) powi (- k) = 1 / 2 ^ nat k"
    using k1 by (simp add: power_int_def field_simps)
  have p2: "(2 :: real) powi (- k + 1) = 1 / 2 ^ nat (k - 1)"
  proof -
    have "- k + 1 = - (k - 1)" by simp
    then have "(2 :: real) powi (- k + 1) = inverse (2 powi (k - 1))"
      by (metis power_int_minus)
    also have "\<dots> = 1 / 2 ^ nat (k - 1)"
      using k1 by (simp add: power_int_def field_simps)
    finally show ?thesis .
  qed
  have xy: "x * y = 1" using assms(1) by (simp add: y_def)
  have a: "1 / 2 ^ nat k \<le> x"
  proof -
    have "x * y \<le> x * 2 ^ nat k"
      using h assms(1) by (intro mult_left_mono) simp_all
    then have "1 \<le> x * 2 ^ nat k" using xy by simp
    then show ?thesis by (simp add: field_simps)
  qed
  have b: "x < 1 / 2 ^ nat (k - 1)"
  proof -
    have "x * 2 ^ nat (k - 1) < x * y"
      using l assms(1) by (intro mult_strict_left_mono) simp_all
    then have "x * 2 ^ nat (k - 1) < 1" using xy by simp
    then show ?thesis by (simp add: field_simps)
  qed
  have "binade x = - k"
    using assms by (simp add: binade_def k_def y_def)
  with a b p1 p2 show ?thesis by simp
qed

lemma binade_bounds:
  assumes "0 < x"
  shows "2 powi binade x \<le> x \<and> x < 2 powi (binade x + 1)"
  using assms binade_ge1 [of x] binade_lt1 [of x] by (cases "1 \<le> x") auto

lemma fl_rel_error: "\<bar>fl x - x\<bar> \<le> \<bar>x\<bar> / 2 ^ 53"
proof (cases "x = 0")
  case True
  then show ?thesis by (simp add: fl_def)
next
  case False
  define e where "e = binade \<bar>x\<bar>"
  define q :: real where "q = 2 powi (e - 52)"
  have q0: "0 < q" by (simp add: q_def)
  have flx: "fl x = real_of_int (round_even (x / q)) * q"
    using False by (simp add: fl_def e_def q_def Let_def)
  have "fl x - x = (real_of_int (round_even (x / q)) - x / q) * q"
    using q0 by (simp add: flx field_simps)
  then have "\<bar>fl x - x\<bar> = \<bar>real_of_int (round_even (x / q)) - x / q\<bar> * q"
    using q0 by (simp add: abs_mult)
  also have "\<dots> \<le> 1 / 2 * q"
    using round_even_error [of "x / q"] q0 by (intro mult_right_mono) simp_all
  finally have err: "\<bar>fl x - x\<bar> \<le> q / 2" by simp
  have "2 powi e \<le> \<bar>x\<bar>"
    using binade_bounds [of "\<bar>x\<bar>"] False by (simp add: e_def)
  moreover have "(2 :: real) powi e = q * 2 ^ 52"
  proof -
    have "(2 :: real) powi e = 2 powi ((e - 52) + 52)" by simp
    also have "\<dots> = 2 powi (e - 52) * 2 powi 52"
      by (rule power_int_add) simp
    finally show ?thesis by (simp add: q_def)
  qed
  ultimately have "q * 2 ^ 52 \<le> \<bar>x\<bar>" by simp
  then have "q / 2 \<le> \<bar>x\<bar> / 2 ^ 53"
    by (simp add: field_simps)
  with err show ?thesis by linarith
qed

lemma fl_le_pos:
  assumes "0 \<le> x"
  shows "fl x \<le> x * (1 + 1 / 2 ^ 53)"
  using fl_rel_error [of x] assms by (simp add: algebra_simps abs_if split: if_splits)

lemma fl_ge_pos:
  assumes "0 \<le> x"
  shows "x * (1 - 1 / 2 ^ 53) \<le> fl x"
  using fl_rel_error [of x] assms by (simp add: algebra_simps abs_if split: if_splits)

lemma fl_nonpos:
  assumes "x \<le> 0"
  shows "fl x \<le> 0"
proof -
  have "fl x - x \<le> \<bar>x\<bar> / 2 ^ 53"
    using fl_rel_error [of x] by linarith
  moreover have "\<bar>x\<bar> / 2 ^ 53 \<le> \<bar>x\<bar>"
    by (simp add: field_simps)
  ultimately show ?thesis using assms by simp
qed

lemma py_int_cap:
  assumes "x < 1001"
  shows "py_int x \<le> 1000"
proof (cases "0 \<le> x")
  case True
  have "\<lfloor>x\<rfloor> < 1001" using assms by (simp add: floor_less_iff)
  with True show ?thesis by (simp add: py_int_def)
next
  case False
  then have "\<lceil>x\<rceil> \<le> 0" by simp
  with False show ?thesis by (simp add: py_int_def)
qed


lemma unscaled_cap:
  assumes "int_truediv wd MAX_DIM < 1"
  shows "py_int (int_truediv wd 1) \<le> 1000"
proof (cases "0 < wd")
  case False
  then have "fl (real_of_int wd) \<le> 0" by (intro fl_nonpos) simp
  then show ?thesis by (simp add: int_truediv_def py_int_cap)
next
  case True
  have "real_of_int wd / 1000 * (1 - 1 / 2 ^ 53) \<le> fl (real_of_int wd / 1000)"
    using True by (intro fl_ge_pos) simp
  with assms have lt: "real_of_int wd / 1000 * (1 - 1 / 2 ^ 53) < 1"
    by (simp add: int_truediv_def MAX_DIM_def)
  have "wd \<le> 1000"
  proof (rule ccontr)
    assume "\<not> wd \<le> 1000"
    then have "1001 \<le> real_of_int wd" by linarith
    then have "1001 / 1000 * (1 - 1 / 2 ^ 53) \<le> real_of_int wd / 1000 * (1 - 1 / 2 ^ 53)"
      by (intro mult_right_mono) simp_all
    with lt show False by simp
  qed
  then have "real_of_int wd \<le> 1000" by linarith
  then have "real_of_int wd * (1 + 1 / 2 ^ 53) \<le> 1000 * (1 + 1 / 2 ^ 53)"
    by (intro mult_right_mono) simp_all
  moreover have "fl (real_of_int wd) \<le> real_of_int wd * (1 + 1 / 2 ^ 53)"
    using True by (intro fl_le_pos) simp
  ultimately have "fl (real_of_int wd) < 1001" by simp
  then show ?thesis by (simp add: int_truediv_def py_int_cap)
qed

lemma scaled_cap:
  assumes "int_truediv wd MAX_DIM \<le> m" and "1 \<le> m"
  shows "py_int (int_over_float wd m) \<le> 1000"
proof (cases "0 < wd")
  case False
  then have "fl (real_of_int wd) \<le> 0" by (intro fl_nonpos) simp
  then have "fl (real_of_int wd) / m \<le> 0"
    using assms(2) by (simp add: divide_le_0_iff)
  then have "fl (fl (real_of_int wd) / m) \<le> 0" by (rule fl_nonpos)
  then show ?thesis by (simp add: int_over_float_def py_int_cap)
next
  case True
  define w :: real where "w = real_of_int wd"
  define c0 :: real where "c0 = 1 - 1 / 2 ^ 53"
  define c1 :: real where "c1 = 1 + 1 / 2 ^ 53"
  define q where "q = fl w / m"
  have w0: "0 < w" using True by (simp add: w_def)
  have c0: "0 < c0" and c1: "0 < c1" by (simp_all add: c0_def c1_def)
  have up: "fl w \<le> w * c1"
    unfolding c1_def using w0 by (intro fl_le_pos) simp
  have "w / 1000 * c0 \<le> fl (w / 1000)"
    unfolding c0_def using w0 by (intro fl_ge_pos) simp
  with assms(1) have lo: "w / 1000 * c0 \<le> m"
    by (simp add: int_truediv_def MAX_DIM_def w_def)
  have flw: "0 \<le> fl w"
  proof -
    have "w * c0 \<le> fl w"
      unfolding c0_def using w0 by (intro fl_ge_pos) simp
    moreover have "0 \<le> w * c0"
      using w0 c0 by simp
    ultimately show ?thesis by linarith
  qed
  have m0: "0 < m" using assms(2) by simp
  have q0: "0 \<le> q" using flw m0 by (simp add: q_def)
  have "q * (w / 1000 * c0) \<le> q * m"
    using lo q0 by (rule mult_left_mono)
  also have "q * m = fl w" using m0 by (simp add: q_def)
  also note up
  finally have "q * (w / 1000 * c0) \<le> w * c1" .
  then have "w * (q * c0) \<le> w * (1000 * c1)"
    by (simp add: field_simps)
  then have qb: "q * c0 \<le> 1000 * c1"
    using w0 by (simp only: mult_le_cancel_left_pos)
  have "fl q \<le> q * c1"
    unfolding c1_def using q0 by (rule fl_le_pos)
  then have "fl q * c0 \<le> q * c1 * c0"
    using c0 by (simp add: mult_right_mono)
  also have "\<dots> = q * c0 * c1" by simp
  also have "\<dots> \<le> 1000 * c1 * c1"
    using qb c1 by (simp add: mult_right_mono)
  finally have "fl q * c0 \<le> 1000 * c1 * c1" .
  moreover have "1000 * c1 * c1 < 1001 * c0"
    by (simp add: c0_def c1_def)
  ultimately have "fl q * c0 < 1001 * c0" by linarith
  then have "fl q < 1001"
    using c0 by (simp only: mult_less_cancel_right_pos)
  then show ?thesis
    by (simp add: int_over_float_def q_def w_def py_int_cap)
qed

lemma out_size_le:
  assumes "out_size window = (out_width, out_height)"
  shows "out_width \<le> 1000 \<and> out_height \<le> 1000"
proof -
  obtain c r wd ht where win: "window = (c, r, wd, ht)"
    by (cases window) auto
  define m where "m = max (int_truediv wd MAX_DIM) (int_truediv ht MAX_DIM)"
  have a: "int_truediv wd MAX_DIM \<le> m" and b: "int_truediv ht MAX_DIM \<le> m"
    by (simp_all add: m_def)
  have eq: "(out_width, out_height) =
      (if m < 1 then (py_int (int_truediv wd 1), py_int (int_truediv ht 1))
       else (py_int (int_over_float wd m), py_int (int_over_float ht m)))"
    unfolding assms [symmetric] by (simp only: win out_size_def Let_def m_def prod.case)
  show ?thesis
  proof (cases "m < 1")
    case True
    with eq have ow: "out_width = py_int (int_truediv wd 1)" and oh: "out_height = py_int (int_truediv ht 1)"
      by simp_all
    from True a b have "int_truediv wd MAX_DIM < 1" "int_truediv ht MAX_DIM < 1"
      by linarith+
    then show ?thesis
      unfolding ow oh by (simp add: unscaled_cap)
  next
    case False
    with eq have ow: "out_width = py_int (int_over_float wd m)" and oh: "out_height = py_int (int_over_float ht m)"
      by simp_all
    from False have "1 \<le> m" by simp
    with a b show ?thesis
      unfolding ow oh by (simp add: scaled_cap)
  qed
qed

lemma length_concat_rows:
  "length (concat (map (\<lambda>i. map (f i) [0..<m]) [0..<n])) = n * m"
  by (induction n) simp_all

lemma read_band_result:
  assumes "read_band src bnds out = Inr (d, out_width, out_height)"
  shows "0 \<le> out_width \<and> 0 \<le> out_height
       \<and> arr_shape d = (nat out_height, nat out_width)
       \<and> length (arr_flat d) = nat out_height * nat out_width
       \<and> (case out of
            Some sz \<Rightarrow> (out_width, out_height) = sz
          | None \<Rightarrow> (\<exists>window. clamped_window src bnds = Inr window
                               \<and> out_size window = (out_width, out_height)))"
  using assms
  by (auto simp: read_band_def read_array_def Let_def length_concat_rows
           split: sum.splits option.splits prod.splits if_splits)


lemma read_bands_shared:
  assumes "read_bands w bnds (Some (out_width, out_height)) urls = Inr (band_data, out)"
  shows "out = Some (out_width, out_height) \<and> map fst band_data = map fst urls
       \<and> (\<forall>(b, d) \<in> set band_data.
             arr_shape d = (nat out_height, nat out_width)
           \<and> length (arr_flat d) = nat out_height * nat out_width)"
  using assms
proof (induction urls arbitrary: band_data)
  case Nil
  then show ?case by simp
next
  case (Cons u urls)
  obtain b url where u: "u = (b, url)" by (cases u)
  from Cons.prems obtain src d sz rest where
    rb: "read_band src bnds (Some (out_width, out_height)) = Inr (d, sz)"
    and rr: "read_bands w bnds (Some sz) urls = Inr (rest, out)"
    and bd: "band_data = (b, d) # rest"
    unfolding u by (auto split: option.splits sum.splits prod.splits)
  obtain ow oh where sz: "sz = (ow, oh)" by (cases sz)
  from read_band_result [OF rb [unfolded sz]]
  have same: "sz = (out_width, out_height)"
    and shp: "arr_shape d = (nat out_height, nat out_width)"
             "length (arr_flat d) = nat out_height * nat out_width"
    unfolding sz by auto
  from Cons.IH [OF rr [unfolded same]] shp show ?case
    unfolding bd u by simp
qed

lemma read_bands_first:
  assumes "read_bands w bnds None ((b, url) # rest) = Inr (band_data, out)"
  shows "\<exists>src window out_width out_height.
           open_raster w url = Some src \<and> clamped_window src bnds = Inr window
         \<and> out_size window = (out_width, out_height) \<and> out = Some (out_width, out_height)
         \<and> 0 \<le> out_width \<and> out_width \<le> 1000 \<and> 0 \<le> out_height \<and> out_height \<le> 1000
         \<and> map fst band_data = b # map fst rest
         \<and> (\<forall>(b, d) \<in> set band_data.
               arr_shape d = (nat out_height, nat out_width)
             \<and> length (arr_flat d) = nat out_height * nat out_width)"
proof -
  from assms obtain src d sz tl where
    op: "open_raster w url = Some src"
    and rb: "read_band src bnds None = Inr (d, sz)"
    and rr: "read_bands w bnds (Some sz) rest = Inr (tl, out)"
    and bd: "band_data = (b, d) # tl"
    by (auto split: option.splits sum.splits prod.splits)
  obtain ow oh where sz: "sz = (ow, oh)" by (cases sz)
  from read_band_result [OF rb [unfolded sz]] obtain window where
    nn: "0 \<le> ow" "0 \<le> oh"
    and shp: "arr_shape d = (nat oh, nat ow)" "length (arr_flat d) = nat oh * nat ow"
    and cw: "clamped_window src bnds = Inr window"
    and os: "out_size window = (ow, oh)"
    by auto
  note le = out_size_le [OF os]
  note sh = read_bands_shared [OF rr [unfolded sz]]
  have "open_raster w url = Some src \<and> clamped_window src bnds = Inr window
         \<and> out_size window = (ow, oh) \<and> out = Some (ow, oh)
         \<and> 0 \<le> ow \<and> ow \<le> 1000 \<and> 0 \<le> oh \<and> oh \<le> 1000
         \<and> map fst band_data = b # map fst rest
         \<and> (\<forall>(b, d) \<in> set band_data.
               arr_shape d = (nat oh, nat ow) \<and> length (arr_flat d) = nat oh * nat ow)"
    using op cw os nn le sh shp unfolding bd by simp
  then show ?thesis
    by (intro exI [of _ src] exI [of _ window] exI [of _ ow] exI [of _ oh])
qed


lemma apply_classification_success:
  assumes "apply_classification w cfg urls src scaler clf = Inr (h, wd, cls, bl)"
  shows "\<exists>bnds bd out pixels.
           read_window_data w cfg urls src = Inr (bnds, bd, out)
         \<and> stack_pixels (include_indices cfg) bd = Inr (h, wd, pixels)
         \<and> cls = classify_pixels scaler clf pixels"
proof (cases "read_window_data w cfg urls src")
  case (Inl e)
  with assms show ?thesis by (simp add: apply_classification_def)
next
  case (Inr r)
  obtain bnds bd out where r: "r = (bnds, bd, out)" by (cases r)
  show ?thesis
  proof (cases "stack_pixels (include_indices cfg) bd")
    case (Inl e)
    with assms Inr r show ?thesis
      by (simp add: apply_classification_def split: prod.splits)
  next
    case st: (Inr t)
    obtain h' wd' pixels where t: "t = (h', wd', pixels)" by (cases t)
    from assms Inr r st t have "h' = h \<and> wd' = wd \<and> cls = classify_pixels scaler clf pixels"
      by (simp add: apply_classification_def split: prod.splits)
    with Inr r st t show ?thesis
      by (intro exI [of _ bnds] exI [of _ bd] exI [of _ out] exI [of _ pixels]) simp
  qed
qed

lemma read_window_data_success:
  assumes "read_window_data w cfg urls src = Inr (bnds, bd, out)"
  shows "read_bands w bnds None urls = Inr (bd, out)"
  using assms
  by (auto simp: read_window_data_def split: sum.splits prod.splits)

lemma classify_image_result:
  assumes "fst (classify_image w cfg) = Inr res"
  shows "\<exists>urls src cls bl.
           resolve_primary w cfg = Inr (urls, src)
         \<and> apply_classification w cfg urls src (fitted_scaler w (training_set w cfg urls))
              (fitted_forest w cfg (training_set w cfg urls))
             = Inr (res_height res, res_width res, cls, bl)
         \<and> res_raster res = cls"
proof (cases "resolve_primary w cfg")
  case (Inl e)
  with assms show ?thesis by (simp add: classify_image_def)
next
  case (Inr r)
  obtain urls src where r: "r = (urls, src)" by (cases r)
  let ?a = "training_set w cfg urls"
  show ?thesis
  proof (cases "apply_classification w cfg urls src (fitted_scaler w ?a) (fitted_forest w cfg ?a)")
    case (Inl e)
    with assms Inr r show ?thesis
      by (simp add: classify_image_def Let_def split: if_splits)
  next
    case ac: (Inr t)
    obtain h wd cls bl where t: "t = (h, wd, cls, bl)" by (cases t)
    from assms Inr r ac t have "res_height res = h \<and> res_width res = wd \<and> res_raster res = cls"
      by (auto simp: classify_image_def Let_def split: if_splits)
    with Inr r ac t show ?thesis by simp
  qed
qed

lemma classify_image_stages:
  assumes "fst (classify_image w cfg) = Inr res"
  shows "\<exists>band_urls src bnds band_data out pixels.
           resolve_primary w cfg = Inr (band_urls, src)
         \<and> read_bands w bnds None band_urls = Inr (band_data, out)
         \<and> stack_pixels (include_indices cfg) band_data = Inr (res_height res, res_width res, pixels)
         \<and> length (res_raster res) = length pixels"
proof -
  from classify_image_result [OF assms] obtain urls src cls bl where
    rp: "resolve_primary w cfg = Inr (urls, src)"
    and ac: "apply_classification w cfg urls src (fitted_scaler w (training_set w cfg urls))
              (fitted_forest w cfg (training_set w cfg urls))
             = Inr (res_height res, res_width res, cls, bl)"
    and rr: "res_raster res = cls"
    by blast
  from apply_classification_success [OF ac] obtain bnds bd out pixels where
    rw: "read_window_data w cfg urls src = Inr (bnds, bd, out)"
    and st: "stack_pixels (include_indices cfg) bd = Inr (res_height res, res_width res, pixels)"
    and cl: "cls = classify_pixels (fitted_scaler w (training_set w cfg urls))
                     (fitted_forest w cfg (training_set w cfg urls)) pixels"
    by blast
  have "length (res_raster res) = length pixels"
    unfolding rr cl by (simp add: classify_pixels_map)
  with rp read_window_data_success [OF rw] st show ?thesis by blast
qed

lemma resolve_primary_nonempty:
  assumes "resolve_primary w cfg = Inr (band_urls, src)"
  shows "band_urls \<noteq> []"
  using assms
  by (auto simp: resolve_primary_def Let_def split: option.splits if_splits)

lemma stack_pixels_shape:
  assumes "stack_pixels inc band_data = Inr (height, width, pixels)"
  shows "\<exists>a. (Nir, a) \<in> set band_data \<and> arr_shape a = (height, width)"
  using assms
  by (auto simp: stack_pixels_def Let_def split: option.splits prod.splits if_splits
           dest: map_of_SomeD)

lemma wide_out_size: "out_size (0, 0, 1070, 2) = (999, 1)"
  by code_simp

lemma wide_clamped: "clamped_window wide_raster (1 / 2, 1 / 2, 3 / 2, 3 / 2) = Inr (0, 0, 1070, 2)"
  by (simp add: clamped_window_def wide_raster_def example_raster_def py_int_def)

lemma wide_read_first:
  "read_band wide_raster (1 / 2, 1 / 2, 3 / 2, 3 / 2) None
     = Inr (read_array (\<lambda>i j. 100) 1 999, 999, 1)"
  by (simp add: read_band_def wide_clamped wide_out_size)
     (simp add: wide_raster_def example_raster_def)

lemma wide_read_next:
  "read_band wide_raster (1 / 2, 1 / 2, 3 / 2, 3 / 2) (Some (999, 1))
     = Inr (read_array (\<lambda>i j. 100) 1 999, 999, 1)"
  by (simp add: read_band_def wide_clamped)
     (simp add: wide_raster_def example_raster_def)

lemma wide_open: "open_raster wide_world u = Some wide_raster"
  by (simp add: wide_world_def)

lemma wide_read_bands:
  "read_bands wide_world (1 / 2, 1 / 2, 3 / 2, 3 / 2) None example_urls
     = Inr (wide_band_data, Some (999, 1))"
  by (simp add: example_urls_def wide_open wide_read_first wide_read_next wide_band_data_def)


lemma band_column_length:
  assumes "\<forall>(b, d) \<in> set bd. length (arr_flat d) = n"
  shows "length (band_column bd n c) = n"
proof (cases "map_of bd c")
  case None
  then show ?thesis by (simp add: band_column_def)
next
  case (Some d)
  then have "(c, d) \<in> set bd" by (rule map_of_SomeD)
  with assms have "length (arr_flat d) = n" by auto
  with Some show ?thesis by (simp add: band_column_def)
qed

lemma stack_pixels_ok:
  assumes "map_of bd Nir = Some a" and "arr_shape a = (h, wd)"
    and "\<forall>(b, d) \<in> set bd. length (arr_flat d) = h * wd"
  shows "\<exists>pixels. stack_pixels inc bd = Inr (h, wd, pixels)"
  using assms(1,2) band_column_length [OF assms(3)]
  by (simp add: stack_pixels_def Let_def)

lemma classify_image_ok:
  assumes "resolve_primary w cfg = Inr (urls, src)"
    and "\<not> length (feature_matrix (training_set w cfg urls)) < 3"
    and "read_window_data w cfg urls src = Inr (bnds, bd, out)"
    and "stack_pixels (include_indices cfg) bd = Inr (h, wd, pixels)"
  shows "\<exists>res. fst (classify_image w cfg) = Inr res \<and> res_height res = h \<and> res_width res = wd"
proof -
  obtain l b r t where bnds: "bnds = (l, b, r, t)" by (cases bnds)
  show ?thesis
    using assms unfolding bnds
    by (simp add: classify_image_def apply_classification_def Let_def)
qed

lemma wide_window_data:
  "read_window_data wide_world (example_config [1, 1, 1]) example_urls wide_raster
     = Inr ((1 / 2, 1 / 2, 3 / 2, 3 / 2), wide_band_data, Some (999, 1))"
proof -
  have "window_bounds wide_raster (training_data (example_config [1, 1, 1]))
          = Inr (1 / 2, 1 / 2, 3 / 2, 3 / 2)"
    by code_simp
  then show ?thesis
    by (simp add: read_window_data_def wide_read_bands)
qed

lemma wide_run:
  "\<exists>res. fst (classify_image wide_world (example_config [1, 1, 1])) = Inr res
         \<and> res_height res = 1 \<and> res_width res = 999"
proof -
  let ?cfg = "example_config [1, 1, 1]"
  have rp: "resolve_primary wide_world ?cfg = Inr (example_urls, wide_raster)"
    by (simp add: resolve_primary_def wide_world_def example_world_def example_config_def
          example_item_def all_keys_def get_band_urls_for_item_def band_keys_def resolve_url_def
          example_urls_def)
  have n3: "\<not> length (feature_matrix (training_set wide_world ?cfg example_urls)) < 3"
    by code_simp
  have nir: "map_of wide_band_data Nir = Some (read_array (\<lambda>i j. 100) 1 999)"
    by (simp add: wide_band_data_def)
  have shp: "arr_shape (read_array (\<lambda>i j. 100) 1 999) = (1, 999)"
    by (simp add: read_array_def)
  have len: "\<forall>(b, d) \<in> set wide_band_data. length (arr_flat d) = 1 * 999"
    by (simp add: wide_band_data_def read_array_def length_concat_rows)
  from stack_pixels_ok [OF nir shp len] obtain pixels where
    st: "stack_pixels (include_indices ?cfg) wide_band_data = Inr (1, 999, pixels)"
    by blast
  from classify_image_ok [OF rp n3 wide_window_data st] show ?thesis .
qed

text \<open>
  C4: the output size computed at lines 301-304, with the divisions rounded to double
  precision as Python does, never exceeds 1000 on either axis, for every window. The
  loop that reads the bands computes it once, from the clamped window of the first band
  and one scale factor for both axes, and the array read for every band has the shape
  (out_height, out_width). The raster of a run has this shape, so its width and height
  are at most 1000.
\<close>

theorem output_size_capped:
  "(out_size window0 = (ow, oh) \<longrightarrow> ow \<le> 1000 \<and> oh \<le> 1000)
   \<and> (read_bands w bnds None band_urls = Inr (band_data, out) \<and> band_urls \<noteq> [] \<longrightarrow>
      (\<exists>src window out_width out_height.
          open_raster w (snd (hd band_urls)) = Some src \<and> clamped_window src bnds = Inr window
        \<and> out_size window = (out_width, out_height) \<and> out = Some (out_width, out_height)
        \<and> 0 \<le> out_width \<and> out_width \<le> 1000 \<and> 0 \<le> out_height \<and> out_height \<le> 1000
        \<and> map fst band_data = map fst band_urls
        \<and> (\<forall>(b, d) \<in> set band_data.
              arr_shape d = (nat out_height, nat out_width)
            \<and> length (arr_flat d) = nat out_height * nat out_width)))
   \<and> (fst (classify_image w' cfg) = Inr res \<longrightarrow>
        res_width res \<le> 1000 \<and> res_height res \<le> 1000
      \<and> length (res_raster res) = res_height res * res_width res)"
proof (intro conjI impI)
  assume "out_size window0 = (ow, oh)"
  from out_size_le [OF this] show "ow \<le> 1000" and "oh \<le> 1000"
    by simp_all
next
  assume h: "read_bands w bnds None band_urls = Inr (band_data, out) \<and> band_urls \<noteq> []"
  then obtain b url rest where urls: "band_urls = (b, url) # rest"
    by (cases band_urls) auto
  from read_bands_first [OF conjunct1 [OF h, unfolded urls]]
  show "\<exists>src window out_width out_height.
          open_raster w (snd (hd band_urls)) = Some src \<and> clamped_window src bnds = Inr window
        \<and> out_size window = (out_width, out_height) \<and> out = Some (out_width, out_height)
        \<and> 0 \<le> out_width \<and> out_width \<le> 1000 \<and> 0 \<le> out_height \<and> out_height \<le> 1000
        \<and> map fst band_data = map fst band_urls
        \<and> (\<forall>(b, d) \<in> set band_data.
              arr_shape d = (nat out_height, nat out_width)
            \<and> length (arr_flat d) = nat out_height * nat out_width)"
    unfolding urls by simp
next
  assume "fst (classify_image w' cfg) = Inr res"
  from classify_image_stages [OF this] obtain urls src bnds' bd out' pixels where
    rp: "resolve_primary w' cfg = Inr (urls, src)"
    and rb: "read_bands w' bnds' None urls = Inr (bd, out')"
    and st: "stack_pixels (include_indices cfg) bd = Inr (res_height res, res_width res, pixels)"
    and len: "length (res_raster res) = length pixels"
    by blast
  from resolve_primary_nonempty [OF rp] obtain b url rest where urls: "urls = (b, url) # rest"
    by (cases urls) auto
  from read_bands_first [OF rb [unfolded urls]] obtain ow' oh' where
    le: "0 \<le> ow'" "ow' \<le> 1000" "0 \<le> oh'" "oh' \<le> 1000"
    and sh: "\<forall>(b, d) \<in> set bd. arr_shape d = (nat oh', nat ow')
                \<and> length (arr_flat d) = nat oh' * nat ow'"
    by blast
  from stack_pixels_shape [OF st] obtain a where
    a: "(Nir, a) \<in> set bd" "arr_shape a = (res_height res, res_width res)"
    by blast
  from sh a have "res_height res = nat oh'" "res_width res = nat ow'"
    by auto
  with le show "res_width res \<le> 1000" and "res_height res \<le> 1000"
    by linarith+
  show "length (res_raster res) = res_height res * res_width res"
    using len stack_pixels_rows(1) [OF st] by simp
qed

theorem output_size_capped_witness:
  "out_size (0, 0, 1070, 1070) = (999, 999) \<and> out_size (0, 0, 2500, 1200) = (1000, 480)
   \<and> (999 :: int) \<le> 1000 \<and> (480 :: int) \<le> 1000
   \<and> (\<exists>src window out_width out_height.
         open_raster wide_world (snd (hd example_urls)) = Some src
       \<and> clamped_window src (1 / 2, 1 / 2, 3 / 2, 3 / 2) = Inr window
       \<and> out_size window = (out_width, out_height) \<and> Some (999, 1) = Some (out_width, out_height)
       \<and> 0 \<le> out_width \<and> out_width \<le> 1000 \<and> 0 \<le> out_height \<and> out_height \<le> 1000
       \<and> map fst wide_band_data = map fst example_urls
       \<and> (\<forall>(b, d) \<in> set wide_band_data.
             arr_shape d = (nat out_height, nat out_width)
           \<and> length (arr_flat d) = nat out_height * nat out_width))
   \<and> res_width (projr (fst (classify_image wide_world (example_config [1, 1, 1])))) = 999
   \<and> res_width (projr (fst (classify_image wide_world (example_config [1, 1, 1])))) \<le> 1000
   \<and> res_height (projr (fst (classify_image wide_world (example_config [1, 1, 1])))) \<le> 1000"
proof -
  let ?cfg = "example_config [1, 1, 1]"
  have s1: "out_size (0, 0, 1070, 1070) = (999, 999)"
    by code_simp
  have s2: "out_size (0, 0, 2500, 1200) = (1000, 480)"
    by code_simp
  have h2: "example_urls \<noteq> []"
    by (simp add: example_urls_def)
  from wide_run obtain res where
    r: "fst (classify_image wide_world ?cfg) = Inr res" and w: "res_width res = 999"
    by blast
  have p: "projr (fst (classify_image wide_world ?cfg)) = res"
    using r by simp
  show ?thesis
    unfolding p
    using output_size_capped [of "(0, 0, 1070, 1070)" 999 999 wide_world
            "(1 / 2, 1 / 2, 3 / 2, 3 / 2)" example_urls wide_band_data "Some (999, 1)"
            wide_world ?cfg res]
          output_size_capped [of "(0, 0, 2500, 1200)" 1000 480]
          s1 s2 h2 r w wide_read_bands
    by blast
qed

end
